theory Spec2Isabelle
  imports Main "HOL-Library.AList"
begin

section \<open>Python strings\<close>

text \<open>
  A Python \<open>str\<close> is modelled as a \<open>string\<close> whose characters are the code points
  below 256. The whitespace characters are those for which \<open>str.isspace\<close> holds in that
  range; the regular expression class \<open>\s\<close> matches the same characters.
\<close>

definition isspace :: "char \<Rightarrow> bool" where
  "isspace c = (c \<in> set [CHR 0x09, CHR 0x0A, CHR 0x0B, CHR 0x0C, CHR 0x0D, CHR 0x1C,
                         CHR 0x1D, CHR 0x1E, CHR 0x1F, CHR 0x20, CHR 0x85, CHR 0xA0])"

text \<open>\<open>s.strip()\<close>\<close>

definition str_strip :: "string \<Rightarrow> string" where
  "str_strip s = rev (dropWhile isspace (rev (dropWhile isspace s)))"

text \<open>\<open>s.startswith(p)\<close> and \<open>s.endswith(p)\<close>\<close>

definition startswith :: "string \<Rightarrow> string \<Rightarrow> bool" where
  "startswith s p = (take (length p) s = p)"

definition endswith :: "string \<Rightarrow> string \<Rightarrow> bool" where
  "endswith s p = (length p \<le> length s \<and> drop (length s - length p) s = p)"

text \<open>
  \<open>s.split(sep)\<close> for a separator that is not empty: the occurrences of \<open>sep\<close> are found
  from left to right and do not overlap; \<open>acc\<close> holds the piece read so far.
\<close>

fun split_from :: "string \<Rightarrow> string \<Rightarrow> string \<Rightarrow> string list" where
  "split_from sep acc [] = [acc]"
| "split_from sep acc (c # cs) =
     (if sep \<noteq> [] \<and> startswith (c # cs) sep
      then acc # split_from sep [] (drop (length sep - 1) cs)
      else split_from sep (acc @ [c]) cs)"

definition str_split :: "string \<Rightarrow> string \<Rightarrow> string list" where
  "str_split s sep = split_from sep [] s"

text \<open>\<open>sep.join(xs)\<close>\<close>

fun str_join :: "string \<Rightarrow> string list \<Rightarrow> string" where
  "str_join sep [] = []"
| "str_join sep [x] = x"
| "str_join sep (x # y # ys) = x @ sep @ str_join sep (y # ys)"

subsection \<open>\<open>textwrap.dedent\<close>\<close>

text \<open>
  \<open>dedent\<close> first empties the lines that hold only spaces and tabs, then collects the
  leading run of spaces and tabs of every line that has another character, folds these
  indents into their common margin, and removes the margin from the start of every line
  that has it.
\<close>

definition blank_char :: "char \<Rightarrow> bool" where
  "blank_char c = (c = CHR '' '' \<or> c = CHR 0x09)"

definition whitespace_only_sub :: "string \<Rightarrow> string" where
  "whitespace_only_sub ln = (if ln \<noteq> [] \<and> list_all blank_char ln then [] else ln)"

definition leading_whitespace :: "string list \<Rightarrow> string list" where
  "leading_whitespace lns =
     map (takeWhile blank_char) (filter (\<lambda>ln. dropWhile blank_char ln \<noteq> []) lns)"

fun first_diff :: "string \<Rightarrow> string \<Rightarrow> nat \<Rightarrow> nat option" where
  "first_diff (x # xs) (y # ys) i = (if x \<noteq> y then Some i else first_diff xs ys (Suc i))"
| "first_diff _ _ i = None"

fun margin_step :: "string option \<Rightarrow> string \<Rightarrow> string option" where
  "margin_step None indent = Some indent"
| "margin_step (Some margin) indent =
     (if startswith indent margin then Some margin
      else if startswith margin indent then Some indent
      else (case first_diff margin indent 0 of
              Some i \<Rightarrow> Some (take i margin)
            | None \<Rightarrow> Some margin))"

definition remove_margin :: "string \<Rightarrow> string \<Rightarrow> string" where
  "remove_margin margin ln = (if startswith ln margin then drop (length margin) ln else ln)"

definition dedent :: "string \<Rightarrow> string" where
  "dedent text =
     (let lns = map whitespace_only_sub (str_split text ''\<newline>'');
          margin = foldl margin_step None (leading_whitespace lns)
      in case margin of
           None \<Rightarrow> str_join ''\<newline>'' lns
         | Some m \<Rightarrow>
             if m = [] then str_join ''\<newline>'' lns
             else str_join ''\<newline>'' (map (remove_margin m) lns))"

subsection \<open>\<open>re.sub(r"\s*\n\s{4,}", " ", text)\<close>\<close>

text \<open>
  A match of \<open>\s*\n\s{4,}\<close> that starts at the head of \<open>s\<close> lies inside the leading run of
  whitespace of \<open>s\<close>: the greedy \<open>\s*\<close> gives characters back until a newline follows that
  has four or more whitespace characters after it in the run, and the greedy \<open>\s{4,}\<close> then
  takes the run to its end. \<open>wrap_match\<close> is the length of that match.
\<close>

definition wrap_match :: "string \<Rightarrow> nat option" where
  "wrap_match s =
     (let run = takeWhile isspace s
      in if list_ex (\<lambda>k. run ! k = CHR 0x0A \<and> 4 \<le> length run - Suc k) [0..<length run]
         then Some (length run) else None)"

fun re_sub_wrap :: "string \<Rightarrow> string" where
  "re_sub_wrap [] = []"
| "re_sub_wrap (c # cs) =
     (case wrap_match (c # cs) of
        Some n \<Rightarrow> CHR '' '' # re_sub_wrap (drop (n - 1) cs)
      | None \<Rightarrow> c # re_sub_wrap cs)"

section \<open>Values and errors\<close>

text \<open>
  The Python values that reach a namespace: \<open>None\<close>, booleans, strings, integers, lists
  and function objects. A function object is an opaque reference, the number \<open>fid\<close>.
\<close>

datatype val = VNone | VBool bool | VStr string | VInt int | VList "val list" | VFunc nat

text \<open>The messages of \<open>argparse\<close>, by kind.\<close>

datatype message =
    ConflictingSubparser string
  | ConflictingSubparserAlias string
  | ConflictingOptionStrings "string list"
  | InvalidChoice string
  | UnrecognizedArguments "string list"
  | RequiredArguments "string list"
  | ExpectedOneArgument
  | ExpectedAtLeastOneArgument
  | ExpectedNArguments
  | IgnoredExplicitArgument string
  | InvalidValue string
  | AmbiguousOption string "string list"
  | UnknownParser string

text \<open>
  Every raise of the program and of the library is a value: the Python exceptions by
  class, and \<open>SystemExit\<close> with its status (\<open>ArgumentParser.error\<close> exits with status 2
  after printing the message, the help action exits with status 0 after printing the help).
\<close>

datatype error =
    ValueError string
  | IndexError
  | AttributeError string
  | TypeError string
  | ArgumentError message
  | SystemExit nat "message option"

text \<open>A handler function: its docstring (\<open>__doc__\<close>, possibly \<open>None\<close>) and its identity.\<close>

record func =
  doc :: "string option"
  fid :: nat

section \<open>The docstring grammar of \<open>_add_subcommand\<close>\<close>

text \<open>\<open>bs.index(True)\<close>; \<open>None\<close> stands for the \<open>ValueError\<close> the \<open>try\<close> blocks catch.\<close>

definition index_true :: "bool list \<Rightarrow> nat option" where
  "index_true bs = (if True \<in> set bs then Some (length (takeWhile Not bs)) else None)"

text \<open>\<open>del xs[i]\<close>\<close>

definition del_at :: "nat \<Rightarrow> 'a list \<Rightarrow> 'a list" where
  "del_at i xs = take i xs @ drop (Suc i) xs"

record docparts =
  name :: string
  shorthelp :: string
  args_list :: "string list"
  aliases :: "string list"
  longhelp :: string

text \<open>Lines 170 to 191: the paragraphs, the name line, the Args and Aliases paragraphs.\<close>

definition paragraphs_of :: "string \<Rightarrow> string list" where
  "paragraphs_of docstr = map dedent (str_split (str_strip docstr) ''\<newline>\<newline>'')"

definition take_args :: "string list \<Rightarrow> string list \<times> string list" where
  "take_args paragraphs =
     (case index_true (map (\<lambda>x. startswith x ''Args:\<newline>'') paragraphs) of
        None \<Rightarrow> ([], paragraphs)
      | Some index \<Rightarrow>
          (map (drop 5) (filter (\<lambda>x. startswith x ''Args:\<newline>'') paragraphs),
           del_at index paragraphs))"

definition take_aliases :: "string list \<Rightarrow> string list \<times> string list" where
  "take_aliases paragraphs =
     (case index_true (map (\<lambda>x. startswith x ''Aliases:'') paragraphs) of
        None \<Rightarrow> ([], paragraphs)
      | Some index \<Rightarrow>
          (map str_strip (str_split (drop 9 (paragraphs ! index)) '',''),
           del_at index paragraphs))"

definition parse_doc :: "string \<Rightarrow> error + docparts" where
  "parse_doc docstr =
     (case paragraphs_of docstr of
        [] \<Rightarrow> Inl IndexError
      | p0 # paragraphs \<Rightarrow>
          (case str_split p0 '': '' of
             [n, sh] \<Rightarrow>
               (let (al, ps1) = take_args paragraphs;
                    (als, ps2) = take_aliases ps1
                in Inr \<lparr>name = n, shorthelp = sh, args_list = al, aliases = als,
                        longhelp = str_join ''\<newline>\<newline>'' ps2\<rparr>)
           | [_] \<Rightarrow> Inl (ValueError ''not enough values to unpack'')
           | _ \<Rightarrow> Inl (ValueError ''too many values to unpack'')))"

section \<open>The argument rules of \<open>_add_subcommand\<close>\<close>

text \<open>
  The keyword arguments built at lines 199 to 216. \<open>TStrLiteral\<close> is the string
  \<open>"str"\<close> of line 201, \<open>TStr\<close> the builtin \<open>str\<close> of line 212, \<open>TInt\<close> the builtin
  \<open>int\<close> of line 208; \<open>kw_default_empty\<close> says that \<open>"default": []\<close> is present and
  \<open>kw_nargs_plus\<close> that \<open>"nargs": "+"\<close> is.
\<close>

datatype action_kw = KStore | KStoreTrue | KAppend

datatype type_kw = TStrLiteral | TStr | TInt

record kwargs =
  kw_action :: action_kw
  kw_type :: "type_kw option"
  kw_default_empty :: bool
  kw_nargs_plus :: bool
  kw_help :: string

definition compile_arg :: "string \<Rightarrow> string \<Rightarrow> error + (string list \<times> kwargs)" where
  "compile_arg arg arghelp =
     (if startswith arg ''-'' then
        (if CHR ''='' \<in> set arg then
           (case str_split arg ''='' of
              [a, atype] \<Rightarrow>
                (let rep = endswith atype ''...'';
                     atype' = (if rep then take (length atype - 3) atype else atype)
                 in Inr (str_split a ''|'',
                      \<lparr>kw_action = (if rep then KAppend else KStore),
                       kw_type = Some (if atype' = ''int'' then TInt else TStrLiteral),
                       kw_default_empty = rep, kw_nargs_plus = False, kw_help = arghelp\<rparr>))
            | [_] \<Rightarrow> Inl (ValueError ''not enough values to unpack'')
            | _ \<Rightarrow> Inl (ValueError ''too many values to unpack''))
         else Inr (str_split arg ''|'',
                \<lparr>kw_action = KStoreTrue, kw_type = None, kw_default_empty = False,
                 kw_nargs_plus = False, kw_help = arghelp\<rparr>))
      else if endswith arg ''...'' then
        Inr (str_split (take (length arg - 3) arg) ''|'',
          \<lparr>kw_action = KAppend, kw_type = None, kw_default_empty = False,
           kw_nargs_plus = True, kw_help = arghelp\<rparr>)
      else
        Inr (str_split arg ''|'',
          \<lparr>kw_action = KStore, kw_type = Some TStr, kw_default_empty = False,
           kw_nargs_plus = False, kw_help = arghelp\<rparr>))"

section \<open>The \<open>argparse\<close> library: building parsers\<close>

text \<open>
  The part of the standard library's \<open>argparse\<close> (CPython 3.11) that the program
  reaches, with prefix character \<open>-\<close>, abbreviations allowed and the conflict handler
  \<open>error\<close>. An action holds what \<open>add_argument\<close> computed; \<open>dest = None\<close> and
  \<open>dflt = None\<close> stand for the marker \<open>SUPPRESS\<close>, \<open>conv = None\<close> for \<open>type=None\<close>.
\<close>

datatype nargs = NargsNone | NargsZero | OneOrMore | Parser

datatype act_class = HelpAction | StoreAction | StoreTrueAction | AppendAction | SubParsersAction

record action =
  option_strings :: "string list"
  dest :: "string option"
  nargs :: nargs
  act_class :: act_class
  conv :: "type_kw option"
  dflt :: "val option"
  required :: bool
  helptext :: string

text \<open>
  A parser object: its description, its actions in the order they were added, the
  dictionary from option string to action (an action is named by its index in
  \<open>actions\<close>), the dictionary of \<open>set_defaults\<close>, and whether an option string looks like
  a negative number.
\<close>

record parser =
  description :: string
  actions :: "action list"
  option_string_actions :: "(string \<times> nat) list"
  defaults :: "(string \<times> val) list"
  has_negative_number_optionals :: bool

definition help_action :: action where
  "help_action = \<lparr>option_strings = [''-h'', ''--help''], dest = None, nargs = NargsZero,
     act_class = HelpAction, conv = None, dflt = None, required = False,
     helptext = ''show this help message and exit''\<rparr>"

text \<open>\<open>ArgumentParser(description=...)\<close>: a parser with its help action.\<close>

definition new_parser :: "string \<Rightarrow> parser" where
  "new_parser d = \<lparr>description = d, actions = [help_action],
     option_string_actions = [(''-h'', 0), (''--help'', 0)], defaults = [],
     has_negative_number_optionals = False\<rparr>"

text \<open>
  The object \<open>subparsers\<close> of line 134 together with the parser objects it refers to:
  \<open>name_parser_map\<close> maps a name or an alias to a reference, the index of the parser in
  \<open>parsers\<close>; \<open>choices_actions\<close> holds name, aliases and help of every command with a help.
\<close>

record registry =
  name_parser_map :: "(string \<times> nat) list"
  choices_actions :: "(string \<times> string list \<times> string) list"
  parsers :: "parser list"

definition empty_registry :: registry where
  "empty_registry = \<lparr>name_parser_map = [], choices_actions = [], parsers = []\<rparr>"

text \<open>\<open>_SubParsersAction.add_parser(name, help=..., description=..., aliases=...)\<close>\<close>

definition add_parser ::
  "registry \<Rightarrow> string \<Rightarrow> string \<Rightarrow> string \<Rightarrow> string list \<Rightarrow> error + (registry \<times> nat)" where
  "add_parser r n h d als =
     (if n \<in> set (map fst (name_parser_map r))
      then Inl (ArgumentError (ConflictingSubparser n))
      else case find (\<lambda>a. a \<in> set (map fst (name_parser_map r))) als of
             Some a \<Rightarrow> Inl (ArgumentError (ConflictingSubparserAlias a))
           | None \<Rightarrow>
               (let ref = length (parsers r)
                in Inr (\<lparr>name_parser_map =
                           fold (\<lambda>a m. AList.update a ref m) als
                             (AList.update n ref (name_parser_map r)),
                         choices_actions = choices_actions r @ [(n, als, h)],
                         parsers = parsers r @ [new_parser d]\<rparr>, ref)))"

text \<open>\<open>parser.set_defaults(k=v)\<close>\<close>

definition set_defaults :: "parser \<Rightarrow> string \<Rightarrow> val \<Rightarrow> parser" where
  "set_defaults p k v =
     p\<lparr>defaults := AList.update k v (defaults p),
       actions := map (\<lambda>a. if dest a = Some k then a\<lparr>dflt := Some v\<rparr> else a) (actions p)\<rparr>"

text \<open>
  \<open>_get_optional_kwargs\<close>: the option strings and the long option strings among them;
  an empty string fails at \<open>option_string[0]\<close>, a string without the prefix is refused.
\<close>

fun get_option_strings :: "string list \<Rightarrow> error + (string list \<times> string list)" where
  "get_option_strings [] = Inr ([], [])"
| "get_option_strings (s # ss) =
     (case s of
        [] \<Rightarrow> Inl IndexError
      | c # cs \<Rightarrow>
          if c \<noteq> CHR ''-'' then Inl (ValueError ''invalid option string'')
          else (case get_option_strings ss of
                  Inl e \<Rightarrow> Inl e
                | Inr (os, ls) \<Rightarrow>
                    Inr (s # os, if cs \<noteq> [] \<and> hd cs = CHR ''-'' then s # ls else ls)))"

definition get_optional_kwargs :: "string list \<Rightarrow> error + (string \<times> string list)" where
  "get_optional_kwargs args =
     (case get_option_strings args of
        Inl e \<Rightarrow> Inl e
      | Inr (os, ls) \<Rightarrow>
          (let d = dropWhile (\<lambda>c. c = CHR ''-'') (if ls \<noteq> [] then hd ls else hd os)
           in if d = [] then Inl (ValueError ''dest= is required'')
              else Inr (map (\<lambda>c. if c = CHR ''-'' then CHR ''_'' else c) d, os)))"

text \<open>
  \<open>_negative_number_matcher\<close>, the pattern \<open>^-\d+$|^-\d*\.\d+$\<close>; \<open>$\<close> also matches before
  a newline that ends the string.
\<close>

definition isdigit :: "char \<Rightarrow> bool" where
  "isdigit c = (c \<in> set ''0123456789'')"

definition negative_number_core :: "string \<Rightarrow> bool" where
  "negative_number_core s =
     (case s of
        [] \<Rightarrow> False
      | c # ds \<Rightarrow>
          c = CHR ''-'' \<and>
          ((ds \<noteq> [] \<and> list_all isdigit ds) \<or>
           (case dropWhile isdigit ds of
              [] \<Rightarrow> False
            | d # fs \<Rightarrow> d = CHR ''.'' \<and> fs \<noteq> [] \<and> list_all isdigit fs)))"

definition negative_number :: "string \<Rightarrow> bool" where
  "negative_number s =
     (negative_number_core s \<or>
      (s \<noteq> [] \<and> last s = CHR 0x0A \<and> negative_number_core (butlast s)))"

text \<open>
  \<open>add_argument(*args, **kwargs)\<close>: a single name that does not start with \<open>-\<close> is a
  positional, required; anything else is an optional. A default that the keywords do not
  give is taken from the parser's defaults for the same \<open>dest\<close>. The type must be callable,
  which the string \<open>"str"\<close> is not. An option string that the parser already has is a
  conflict.
\<close>

definition make_action ::
  "parser \<Rightarrow> kwargs \<Rightarrow> string \<Rightarrow> string list \<Rightarrow> bool \<Rightarrow> error + action" where
  "make_action p kw d os req =
     (let given = (if kw_default_empty kw then Some (VList []) else map_of (defaults p) d);
          na = (if kw_nargs_plus kw then OneOrMore else NargsNone)
      in case kw_action kw of
           KStoreTrue \<Rightarrow>
             if kw_nargs_plus kw \<or> kw_type kw \<noteq> None
             then Inl (TypeError ''unexpected keyword argument'')
             else Inr \<lparr>option_strings = os, dest = Some d, nargs = NargsZero,
                    act_class = StoreTrueAction, conv = None,
                    dflt = Some (case given of Some v \<Rightarrow> v | None \<Rightarrow> VBool False),
                    required = req, helptext = kw_help kw\<rparr>
         | KStore \<Rightarrow>
             Inr \<lparr>option_strings = os, dest = Some d, nargs = na,
               act_class = StoreAction, conv = kw_type kw,
               dflt = Some (case given of Some v \<Rightarrow> v | None \<Rightarrow> VNone),
               required = req, helptext = kw_help kw\<rparr>
         | KAppend \<Rightarrow>
             Inr \<lparr>option_strings = os, dest = Some d, nargs = na,
               act_class = AppendAction, conv = kw_type kw,
               dflt = Some (case given of Some v \<Rightarrow> v | None \<Rightarrow> VNone),
               required = req, helptext = kw_help kw\<rparr>)"

definition add_action :: "parser \<Rightarrow> action \<Rightarrow> error + parser" where
  "add_action p a =
     (let confl = filter (\<lambda>s. s \<in> set (map fst (option_string_actions p))) (option_strings a)
      in if confl \<noteq> [] then Inl (ArgumentError (ConflictingOptionStrings confl))
         else Inr (p\<lparr>actions := actions p @ [a],
                     option_string_actions :=
                       fold (\<lambda>s m. AList.update s (length (actions p)) m) (option_strings a)
                         (option_string_actions p),
                     has_negative_number_optionals :=
                       (has_negative_number_optionals p \<or>
                        list_ex negative_number (option_strings a))\<rparr>))"

definition add_argument :: "parser \<Rightarrow> string list \<Rightarrow> kwargs \<Rightarrow> error + parser" where
  "add_argument p args kw =
     (case args of
        [] \<Rightarrow> Inl (TypeError ''missing dest'')
      | a # rest \<Rightarrow>
          if rest = [] \<and> a = [] then Inl IndexError
          else
            (case (if rest = [] \<and> hd a \<noteq> CHR ''-'' then Inr (a, [], True)
                   else (case get_optional_kwargs args of
                           Inl e \<Rightarrow> Inl e
                         | Inr (d, os) \<Rightarrow> Inr (d, os, False))) of
               Inl e \<Rightarrow> Inl e
             | Inr (d, os, req) \<Rightarrow>
                 (case make_action p kw d os req of
                    Inl e \<Rightarrow> Inl e
                  | Inr act \<Rightarrow>
                      if conv act = Some TStrLiteral
                      then Inl (ValueError ''type is not callable'')
                      else add_action p act)))"

section \<open>\<open>_add_subcommand\<close> and the decorator \<open>subcommand\<close>\<close>

text \<open>
  The loop of lines 198 to 217 over the lines already split on \<open>": "\<close>: a line is
  unpacked into \<open>arg\<close> and \<open>arghelp\<close>, compiled and added to the parser.
\<close>

fun add_args :: "string list list \<Rightarrow> parser \<Rightarrow> error + parser" where
  "add_args [] p = Inr p"
| "add_args (parts # rest) p =
     (case parts of
        [arg, arghelp] \<Rightarrow>
          (case compile_arg arg arghelp of
             Inl e \<Rightarrow> Inl e
           | Inr (names, kw) \<Rightarrow>
               (case add_argument p names kw of
                  Inl e \<Rightarrow> Inl e
                | Inr p' \<Rightarrow> add_args rest p'))
      | [] \<Rightarrow> Inl (ValueError ''not enough values to unpack'')
      | [_] \<Rightarrow> Inl (ValueError ''not enough values to unpack'')
      | _ \<Rightarrow> Inl (ValueError ''too many values to unpack''))"

text \<open>Lines 196 to 198: the lines of the Args body, each split on \<open>": "\<close>.\<close>

definition arg_lines :: "string \<Rightarrow> string list list" where
  "arg_lines body =
     map (\<lambda>x. str_split x '': '')
       (filter (\<lambda>x. x \<noteq> []) (map str_strip (str_split (re_sub_wrap body) ''\<newline>'')))"

text \<open>
  \<open>_add_subcommand(parent, func)\<close>. The parser that \<open>add_parser\<close> returns is the object
  the registry holds, so what \<open>set_defaults\<close> and \<open>add_argument\<close> do to it is written back
  under its reference.
\<close>

definition add_subcommand :: "registry \<Rightarrow> func \<Rightarrow> error + registry" where
  "add_subcommand parent f =
     (case doc f of
        None \<Rightarrow> Inl (AttributeError ''strip'')
      | Some docstr \<Rightarrow>
          (case parse_doc docstr of
             Inl e \<Rightarrow> Inl e
           | Inr d \<Rightarrow>
               (case add_parser parent (name d) (shorthelp d) (longhelp d) (aliases d) of
                  Inl e \<Rightarrow> Inl e
                | Inr (parent', ref) \<Rightarrow>
                    (let p = set_defaults (parsers parent' ! ref) ''func'' (VFunc (fid f))
                     in if args_list d \<noteq> [] then
                          (case add_args (arg_lines (hd (args_list d))) p of
                             Inl e \<Rightarrow> Inl e
                           | Inr p' \<Rightarrow> Inr (parent'\<lparr>parsers := (parsers parent')[ref := p']\<rparr>))
                        else Inr (parent'\<lparr>parsers := (parsers parent')[ref := p]\<rparr>)))))"

text \<open>
  \<open>subcommand(parent)\<close> returns \<open>decorator\<close>; \<open>decorator(func)\<close> registers the function
  and falls off its end, so it returns \<open>None\<close>.
\<close>

definition decorator :: "registry \<Rightarrow> func \<Rightarrow> error + (registry \<times> val)" where
  "decorator parent f =
     (case add_subcommand parent f of
        Inl e \<Rightarrow> Inl e
      | Inr parent' \<Rightarrow> Inr (parent', VNone))"

text \<open>
  The module while it is loaded: its global names and the registry \<open>subparsers\<close>. A
  decorated definition \<open>@subcommand() def n(args): ...\<close> binds \<open>n\<close> to what the decorator
  returned for the function object.
\<close>

record module =
  globals :: "(string \<times> val) list"
  subparsers :: registry

definition def_subcommand :: "module \<Rightarrow> string \<Rightarrow> func \<Rightarrow> error + module" where
  "def_subcommand m n f =
     (case decorator (subparsers m) f of
        Inl e \<Rightarrow> Inl e
      | Inr (r, v) \<Rightarrow> Inr \<lparr>globals = AList.update n v (globals m), subparsers = r\<rparr>)"

text \<open>Calling a global name: only a function object can be called.\<close>

definition call_global :: "module \<Rightarrow> string \<Rightarrow> error + nat" where
  "call_global m n =
     (case map_of (globals m) n of
        None \<Rightarrow> Inl (AttributeError n)
      | Some (VFunc h) \<Rightarrow> Inr h
      | Some _ \<Rightarrow> Inl (TypeError ''object is not callable''))"

text \<open>The two commands of the program, lines 237 to 256.\<close>

definition testing :: func where
  "testing = \<lparr>doc = Some (''testing: testing the cli api\<newline>\<newline>'' @
     ''    Aliases: t, test\<newline>\<newline>'' @
     ''    Args:\<newline>'' @
     ''       branch: branch to integrate\<newline>'' @
     ''       files...: One or more files.\<newline>'' @
     ''       -k|--kill: kill\<newline>'' @
     ''    ''), fid = 1\<rparr>"

definition foobar :: func where
  "foobar = \<lparr>doc = Some (''foobar: foo the bars\<newline>\<newline>'' @
     ''    foo foo bar bar\<newline>'' @
     ''    ''), fid = 2\<rparr>"

definition empty_module :: module where
  "empty_module = \<lparr>globals = [], subparsers = empty_registry\<rparr>"

definition geet :: "error + module" where
  "geet =
     (case def_subcommand empty_module ''testing'' testing of
        Inl e \<Rightarrow> Inl e
      | Inr m \<Rightarrow> def_subcommand m ''foobar'' foobar)"

section \<open>The \<open>argparse\<close> library: parsing\<close>

text \<open>
  A namespace is the dictionary of its attributes, in the order they were set:
  \<open>setattr\<close> is \<open>AList.update\<close>, \<open>getattr\<close> is \<open>map_of\<close>, \<open>delattr\<close> is \<open>AList.delete\<close>.
\<close>

type_synonym namespace = "(string \<times> val) list"

subsection \<open>Classifying the argument strings\<close>

text \<open>
  What \<open>_parse_optional\<close> returns for an option string: the action (or none, when the
  string looks like an option the parser does not have), the option string, the separator
  and the explicit argument.
\<close>

datatype optuple =
  OptTuple (ot_action: "nat option") (ot_string: string)
           (ot_sep: "string option") (ot_explicit: "string option")

text \<open>The three characters of the pattern of argument strings: \<open>A\<close>, \<open>O\<close> and \<open>-\<close>.\<close>

datatype pc = PA | PO | PD

datatype cls = ClsA | ClsO optuple | ClsDash

fun pc_of :: "cls \<Rightarrow> pc" where
  "pc_of ClsA = PA"
| "pc_of (ClsO t) = PO"
| "pc_of ClsDash = PD"

text \<open>\<open>s.partition('=')\<close>\<close>

definition partition_eq :: "string \<Rightarrow> string \<times> string \<times> string" where
  "partition_eq s =
     (if CHR ''='' \<in> set s
      then (takeWhile (\<lambda>c. c \<noteq> CHR ''='') s, ''='', tl (dropWhile (\<lambda>c. c \<noteq> CHR ''='') s))
      else (s, [], []))"

text \<open>
  \<open>_get_option_tuples\<close>, for a string of two or more characters that starts with \<open>-\<close>:
  a long option may be abbreviated, a short option may carry its argument.
\<close>

definition get_option_tuples :: "parser \<Rightarrow> string \<Rightarrow> optuple list" where
  "get_option_tuples p arg =
     (if hd (tl arg) = CHR ''-'' then
        (let (prefix, sep, expl) = partition_eq arg
         in map (\<lambda>(os, i). OptTuple (Some i) os
                   (if sep = [] then None else Some sep)
                   (if sep = [] then None else Some expl))
              (filter (\<lambda>(os, i). startswith os prefix) (option_string_actions p)))
      else
        concat (map (\<lambda>(os, i).
                  if os = take 2 arg then [OptTuple (Some i) os (Some []) (Some (drop 2 arg))]
                  else if startswith os arg then [OptTuple (Some i) os None None]
                  else [])
                (option_string_actions p)))"

text \<open>\<open>_parse_optional\<close>; \<open>Inr None\<close> says that the string is a positional argument.\<close>

definition parse_optional :: "parser \<Rightarrow> string \<Rightarrow> error + optuple option" where
  "parse_optional p arg =
     (if arg = [] then Inr None
      else if hd arg \<noteq> CHR ''-'' then Inr None
      else case map_of (option_string_actions p) arg of
        Some i \<Rightarrow> Inr (Some (OptTuple (Some i) arg None None))
      | None \<Rightarrow>
          if length arg = 1 then Inr None
          else
            (let (os, sep, expl) = partition_eq arg
             in case (if sep \<noteq> [] then map_of (option_string_actions p) os else None) of
                  Some i \<Rightarrow> Inr (Some (OptTuple (Some i) os (Some sep) (Some expl)))
                | None \<Rightarrow>
                    (let ts = get_option_tuples p arg
                     in if 1 < length ts
                        then Inl (SystemExit 2 (Some (AmbiguousOption arg (map ot_string ts))))
                        else if length ts = 1 then Inr (Some (hd ts))
                        else if negative_number arg \<and> \<not> has_negative_number_optionals p
                        then Inr None
                        else if CHR '' '' \<in> set arg then Inr None
                        else Inr (Some (OptTuple None arg None None)))))"

text \<open>
  The first loop of \<open>_parse_known_args\<close>: everything after \<open>--\<close> is an argument.
\<close>

fun classify :: "parser \<Rightarrow> string list \<Rightarrow> error + cls list" where
  "classify p [] = Inr []"
| "classify p (s # ss) =
     (if s = ''--'' then Inr (ClsDash # map (\<lambda>_. ClsA) ss)
      else case parse_optional p s of
             Inl e \<Rightarrow> Inl e
           | Inr ot \<Rightarrow>
               (case classify p ss of
                  Inl e \<Rightarrow> Inl e
                | Inr cs \<Rightarrow> Inr ((case ot of None \<Rightarrow> ClsA | Some t \<Rightarrow> ClsO t) # cs)))"

subsection \<open>Matching the patterns of \<open>nargs\<close>\<close>

text \<open>
  The patterns of \<open>_get_nargs_pattern\<close> are sequences of character classes, each taken
  once or under a greedy star. \<open>rmatch\<close> is \<open>re.match\<close> on such a sequence: the match is
  anchored at the start, a star first tries its longest run and gives characters back one
  at a time; the result is the number of characters each item took.
\<close>

type_synonym atom = "pc list \<times> bool"

fun first_some :: "'a option list \<Rightarrow> 'a option" where
  "first_some [] = None"
| "first_some (None # xs) = first_some xs"
| "first_some (Some x # xs) = Some x"

fun rmatch :: "atom list \<Rightarrow> pc list \<Rightarrow> nat list option" where
  "rmatch [] s = Some []"
| "rmatch ((cl, star) # as) s =
     (if star then
        first_some (map (\<lambda>k. map_option (\<lambda>r. k # r) (rmatch as (drop k s)))
                      (rev [0..<Suc (length (takeWhile (\<lambda>c. c \<in> set cl) s))]))
      else (case s of
              [] \<Rightarrow> None
            | c # s' \<Rightarrow> if c \<in> set cl then map_option (\<lambda>r. 1 # r) (rmatch as s') else None))"

definition nargs_pattern :: "action \<Rightarrow> atom list" where
  "nargs_pattern a =
     (if option_strings a = [] then
        (case nargs a of
           NargsNone \<Rightarrow> [([PD], True), ([PA], False), ([PD], True)]
         | NargsZero \<Rightarrow> [([PD], True), ([PD], True)]
         | OneOrMore \<Rightarrow> [([PD], True), ([PA], False), ([PA, PD], True)]
         | Parser \<Rightarrow> [([PD], True), ([PA], False), ([PD, PA, PO], True)])
      else
        (case nargs a of
           NargsNone \<Rightarrow> [([PA], False)]
         | NargsZero \<Rightarrow> []
         | OneOrMore \<Rightarrow> [([PA], False), ([PA], True)]
         | Parser \<Rightarrow> [([PA], False), ([PA, PO], True)]))"

text \<open>\<open>_match_argument\<close>: the number of argument strings the action takes.\<close>

definition match_argument :: "action \<Rightarrow> pc list \<Rightarrow> error + nat" where
  "match_argument a pat =
     (case rmatch (nargs_pattern a) pat of
        Some ls \<Rightarrow> Inr (sum_list ls)
      | None \<Rightarrow>
          Inl (ArgumentError
            (case nargs a of
               NargsNone \<Rightarrow> ExpectedOneArgument
             | OneOrMore \<Rightarrow> ExpectedAtLeastOneArgument
             | _ \<Rightarrow> ExpectedNArguments)))"

text \<open>The lengths of the groups of a match, one group per action.\<close>

fun group_sums :: "nat list \<Rightarrow> nat list \<Rightarrow> nat list" where
  "group_sums [] ls = []"
| "group_sums (n # ns) ls = sum_list (take n ls) # group_sums ns (drop n ls)"

text \<open>
  \<open>_match_arguments_partial\<close>: the longest prefix of the positionals whose patterns,
  one after the other, match the pattern of the argument strings.
\<close>

definition match_arguments_partial :: "action list \<Rightarrow> pc list \<Rightarrow> nat list" where
  "match_arguments_partial acts pat =
     (case first_some
             (map (\<lambda>i. map_option (group_sums (map (length \<circ> nargs_pattern) (take i acts)))
                         (rmatch (concat (map nargs_pattern (take i acts))) pat))
                  (rev [1..<Suc (length acts)])) of
        Some counts \<Rightarrow> counts
      | None \<Rightarrow> [])"

subsection \<open>Converting values\<close>

text \<open>
  \<open>int(s)\<close> for a string: whitespace around, an optional sign, decimal digits with single
  underscores between them, and at most 4300 digits.
\<close>

definition int_space :: "char \<Rightarrow> bool" where
  "int_space c = (c \<in> set [CHR 0x09, CHR 0x0A, CHR 0x0B, CHR 0x0C, CHR 0x0D, CHR 0x20,
                           CHR 0x85, CHR 0xA0])"

definition digit_value :: "char \<Rightarrow> int" where
  "digit_value c = int (of_char c) - 48"

fun parse_digits :: "string \<Rightarrow> int \<Rightarrow> int option" where
  "parse_digits [] acc = Some acc"
| "parse_digits (c # cs) acc =
     (if isdigit c then parse_digits cs (acc * 10 + digit_value c)
      else if c = CHR ''_'' \<and> cs \<noteq> [] \<and> isdigit (hd cs)
      then parse_digits (tl cs) (acc * 10 + digit_value (hd cs))
      else None)"

definition py_int :: "string \<Rightarrow> int option" where
  "py_int s =
     (let t = rev (dropWhile int_space (rev (dropWhile int_space s)));
          neg = (t \<noteq> [] \<and> hd t = CHR ''-'');
          u = (if t \<noteq> [] \<and> (hd t = CHR ''-'' \<or> hd t = CHR ''+'') then tl t else t)
      in case u of
           [] \<Rightarrow> None
         | c # cs \<Rightarrow>
             if 4300 < length (filter isdigit u) \<or> \<not> isdigit c then None
             else map_option (\<lambda>n. if neg then - n else n) (parse_digits cs (digit_value c)))"

text \<open>\<open>_get_value\<close>: the type function applied to one argument string.\<close>

definition get_value :: "action \<Rightarrow> string \<Rightarrow> error + val" where
  "get_value a s =
     (case conv a of
        None \<Rightarrow> Inr (VStr s)
      | Some TStr \<Rightarrow> Inr (VStr s)
      | Some TInt \<Rightarrow>
          (case py_int s of
             Some n \<Rightarrow> Inr (VInt n)
           | None \<Rightarrow> Inl (ArgumentError (InvalidValue s)))
      | Some TStrLiteral \<Rightarrow> Inl (ArgumentError (InvalidValue s)))"

fun get_value_list :: "action \<Rightarrow> string list \<Rightarrow> error + val list" where
  "get_value_list a [] = Inr []"
| "get_value_list a (s # ss) =
     (case get_value a s of
        Inl e \<Rightarrow> Inl e
      | Inr v \<Rightarrow>
          (case get_value_list a ss of
             Inl e \<Rightarrow> Inl e
           | Inr vs \<Rightarrow> Inr (v # vs)))"

text \<open>
  \<open>_get_values\<close>: a positional loses its first \<open>--\<close>; one string for \<open>nargs=None\<close> is a
  single value; the subparsers action converts all strings and checks the first against
  its choices, the names of the registry; everything else is a list.
\<close>

definition get_values :: "string list \<Rightarrow> action \<Rightarrow> string list \<Rightarrow> error + val" where
  "get_values choices a strs =
     (let strs' = (if option_strings a = [] \<and> nargs a \<noteq> Parser
                   then remove1 ''--'' strs else strs)
      in if length strs' = 1 \<and> nargs a = NargsNone then get_value a (hd strs')
         else if nargs a = Parser then
           (case get_value_list a strs' of
              Inl e \<Rightarrow> Inl e
            | Inr vs \<Rightarrow>
                if strs' = [] then Inl IndexError
                else if act_class a = SubParsersAction \<and> hd strs' \<notin> set choices
                then Inl (ArgumentError (InvalidChoice (hd strs')))
                else Inr (VList vs))
         else (case get_value_list a strs' of
                 Inl e \<Rightarrow> Inl e
               | Inr vs \<Rightarrow> Inr (VList vs)))"

subsection \<open>Taking actions\<close>

text \<open>
  The state of one run of \<open>_parse_known_args\<close>: the namespace, the actions seen (by
  index), the extras, and the positionals still to be parsed (by index).
\<close>

record pstate =
  ns :: namespace
  seen :: "nat list"
  extras :: "val list"
  positionals :: "nat list"

definition dest_name :: "action \<Rightarrow> string" where
  "dest_name a = (case dest a of None \<Rightarrow> ''==SUPPRESS=='' | Some d \<Rightarrow> d)"

text \<open>
  \<open>take_action\<close>: the values are converted and the action is called. \<open>sub\<close> is what the
  subparsers action does with a command name and the strings after it: the parser of the
  command parses them into a namespace of its own and returns what it did not recognise.
\<close>

definition take_action ::
  "(string \<Rightarrow> string list \<Rightarrow> error + (namespace \<times> val list)) \<Rightarrow> string list \<Rightarrow>
   parser \<Rightarrow> nat \<Rightarrow> string list \<Rightarrow> pstate \<Rightarrow> error + pstate" where
  "take_action sub choices p i strs st =
     (let a = actions p ! i;
          st1 = st\<lparr>seen := i # seen st\<rparr>
      in case get_values choices a strs of
           Inl e \<Rightarrow> Inl e
         | Inr v \<Rightarrow>
             (case act_class a of
                HelpAction \<Rightarrow> Inl (SystemExit 0 None)
              | StoreAction \<Rightarrow> Inr (st1\<lparr>ns := AList.update (dest_name a) v (ns st1)\<rparr>)
              | StoreTrueAction \<Rightarrow>
                  Inr (st1\<lparr>ns := AList.update (dest_name a) (VBool True) (ns st1)\<rparr>)
              | AppendAction \<Rightarrow>
                  (case map_of (ns st1) (dest_name a) of
                     None \<Rightarrow> Inr (st1\<lparr>ns := AList.update (dest_name a) (VList [v]) (ns st1)\<rparr>)
                   | Some VNone \<Rightarrow>
                       Inr (st1\<lparr>ns := AList.update (dest_name a) (VList [v]) (ns st1)\<rparr>)
                   | Some (VList items) \<Rightarrow>
                       Inr (st1\<lparr>ns := AList.update (dest_name a) (VList (items @ [v])) (ns st1)\<rparr>)
                   | Some _ \<Rightarrow> Inl (AttributeError ''append''))
              | SubParsersAction \<Rightarrow>
                  (case strs of
                     [] \<Rightarrow> Inl IndexError
                   | n # rest \<Rightarrow>
                       (case sub n rest of
                          Inl e \<Rightarrow> Inl e
                        | Inr (subns, ex) \<Rightarrow>
                            (let ns' = fold (\<lambda>(k, x) m. AList.update k x m) subns (ns st1)
                             in if ex = [] then Inr (st1\<lparr>ns := ns'\<rparr>)
                                else (case map_of ns' ''_unrecognized_args'' of
                                        None \<Rightarrow>
                                          Inr (st1\<lparr>ns := AList.update ''_unrecognized_args''
                                                            (VList ex) ns'\<rparr>)
                                      | Some (VList xs) \<Rightarrow>
                                          Inr (st1\<lparr>ns := AList.update ''_unrecognized_args''
                                                            (VList (xs @ ex)) ns'\<rparr>)
                                      | Some _ \<Rightarrow> Inl (AttributeError ''extend'')))))))"

fun take_actions ::
  "(string \<Rightarrow> string list \<Rightarrow> error + (namespace \<times> val list)) \<Rightarrow> string list \<Rightarrow>
   parser \<Rightarrow> (nat \<times> string list) list \<Rightarrow> pstate \<Rightarrow> error + pstate" where
  "take_actions sub choices p [] st = Inr st"
| "take_actions sub choices p ((i, strs) # ts) st =
     (case take_action sub choices p i strs st of
        Inl e \<Rightarrow> Inl e
      | Inr st' \<Rightarrow> take_actions sub choices p ts st')"

subsection \<open>Consuming optionals and positionals\<close>

text \<open>
  The loop inside \<open>consume_optional\<close>, for the option string \<open>os\<close> found in the argument
  string \<open>s\<close>: \<open>pat\<close> and \<open>strs\<close> are the pattern and the strings after \<open>s\<close>. An explicit
  argument after a single-dash flag that takes no argument is read as further single-dash
  flags. The result is the actions to take with their strings, the extras to add, and the
  number of strings taken after \<open>s\<close>.
\<close>

function opt_loop ::
  "parser \<Rightarrow> string \<Rightarrow> nat option \<Rightarrow> string \<Rightarrow> string option \<Rightarrow> string option \<Rightarrow>
   (nat \<times> string list) list \<Rightarrow> pc list \<Rightarrow> string list \<Rightarrow>
   error + ((nat \<times> string list) list \<times> val list \<times> nat)" where
  "opt_loop p s act os sep expl tuples pat strs =
     (case act of
        None \<Rightarrow> Inr ([], [VStr s], 0)
      | Some i \<Rightarrow>
          (case expl of
             None \<Rightarrow>
               (case match_argument (actions p ! i) pat of
                  Inl e \<Rightarrow> Inl e
                | Inr n \<Rightarrow> Inr (tuples @ [(i, take n strs)], [], n))
           | Some ea \<Rightarrow>
               (case match_argument (actions p ! i) [PA] of
                  Inl e \<Rightarrow> Inl e
                | Inr n \<Rightarrow>
                    if n = 0 then
                      (if length os < 2 then Inl IndexError
                       else if hd (tl os) \<noteq> CHR ''-'' \<and> ea \<noteq> [] then
                         (if (sep \<noteq> None \<and> sep \<noteq> Some []) \<or> hd ea = CHR ''-''
                          then Inl (ArgumentError (IgnoredExplicitArgument ea))
                          else
                            (case map_of (option_string_actions p) [hd os, hd ea] of
                               Some j \<Rightarrow>
                                 (if tl ea = []
                                  then opt_loop p s (Some j) [hd os, hd ea] None None
                                         (tuples @ [(i, [])]) pat strs
                                  else if hd (tl ea) = CHR ''=''
                                  then opt_loop p s (Some j) [hd os, hd ea] (Some ''='')
                                         (Some (tl (tl ea))) (tuples @ [(i, [])]) pat strs
                                  else opt_loop p s (Some j) [hd os, hd ea] (Some [])
                                         (Some (tl ea)) (tuples @ [(i, [])]) pat strs)
                             | None \<Rightarrow> Inr (tuples @ [(i, [])], [VStr (hd os # ea)], 0)))
                       else Inl (ArgumentError (IgnoredExplicitArgument ea)))
                    else if n = 1 then Inr (tuples @ [(i, [ea])], [], 0)
                    else Inl (ArgumentError (IgnoredExplicitArgument ea)))))"
  by pat_completeness auto
termination
  by (relation "measure (\<lambda>(p, s, act, os, sep, expl, r).
                  case expl of None \<Rightarrow> 0 | Some ea \<Rightarrow> Suc (length ea))")
     (auto split: option.splits)

declare opt_loop.simps [simp del]

text \<open>
  \<open>consume_optional\<close> at an option string: the actions found by the loop are taken in
  order; the result is the number of strings taken after the option string.
\<close>

definition consume_optional ::
  "(string \<Rightarrow> string list \<Rightarrow> error + (namespace \<times> val list)) \<Rightarrow> string list \<Rightarrow>
   parser \<Rightarrow> (string \<times> cls) list \<Rightarrow> pstate \<Rightarrow> error + (nat \<times> pstate)" where
  "consume_optional sub choices p rem st =
     (case rem of
        [] \<Rightarrow> Inl IndexError
      | (s, c) # rest \<Rightarrow>
          (case c of
             ClsO t \<Rightarrow>
               (case opt_loop p s (ot_action t) (ot_string t) (ot_sep t) (ot_explicit t) []
                       (map (pc_of \<circ> snd) rest) (map fst rest) of
                  Inl e \<Rightarrow> Inl e
                | Inr (tuples, ex, n) \<Rightarrow>
                    (case take_actions sub choices p tuples (st\<lparr>extras := extras st @ ex\<rparr>) of
                       Inl e \<Rightarrow> Inl e
                     | Inr st' \<Rightarrow> Inr (n, st')))
           | _ \<Rightarrow> Inl IndexError))"

text \<open>
  \<open>consume_positionals\<close>: as many of the remaining positionals as match are taken, each
  with its strings; the result is the number of strings taken.
\<close>

fun take_positionals ::
  "(string \<Rightarrow> string list \<Rightarrow> error + (namespace \<times> val list)) \<Rightarrow> string list \<Rightarrow>
   parser \<Rightarrow> (nat \<times> nat) list \<Rightarrow> string list \<Rightarrow> pstate \<Rightarrow> error + pstate" where
  "take_positionals sub choices p [] strs st = Inr st"
| "take_positionals sub choices p ((i, c) # r) strs st =
     (case take_action sub choices p i (take c strs) st of
        Inl e \<Rightarrow> Inl e
      | Inr st' \<Rightarrow> take_positionals sub choices p r (drop c strs) st')"

definition consume_positionals ::
  "(string \<Rightarrow> string list \<Rightarrow> error + (namespace \<times> val list)) \<Rightarrow> string list \<Rightarrow>
   parser \<Rightarrow> (string \<times> cls) list \<Rightarrow> pstate \<Rightarrow> error + (nat \<times> pstate)" where
  "consume_positionals sub choices p rem st =
     (let counts = match_arguments_partial (map (\<lambda>i. actions p ! i) (positionals st))
                     (map (pc_of \<circ> snd) rem)
      in case take_positionals sub choices p (zip (positionals st) counts) (map fst rem) st of
           Inl e \<Rightarrow> Inl e
         | Inr st' \<Rightarrow>
             Inr (sum_list counts,
                  st'\<lparr>positionals := drop (length counts) (positionals st)\<rparr>))"

subsection \<open>The main loop of \<open>_parse_known_args\<close>\<close>

fun is_opt :: "cls \<Rightarrow> bool" where
  "is_opt (ClsO t) = True"
| "is_opt _ = False"

text \<open>
  \<open>rem\<close> holds the argument strings from \<open>start_index\<close> on, each with its class. The loop
  runs while an option string is left: the positionals before the next option string are
  consumed; if none could be, the strings before the option string are extras; then the
  option string is consumed. The result is what is left after the last option string.
\<close>

function parse_loop ::
  "(string \<Rightarrow> string list \<Rightarrow> error + (namespace \<times> val list)) \<Rightarrow> string list \<Rightarrow>
   parser \<Rightarrow> (string \<times> cls) list \<Rightarrow> pstate \<Rightarrow> error + ((string \<times> cls) list \<times> pstate)" where
  "parse_loop sub choices p rem st =
     (let n = length (takeWhile (\<lambda>x. \<not> is_opt (snd x)) rem)
      in if length rem \<le> n then Inr (rem, st)
         else if n \<noteq> 0 then
           (case consume_positionals sub choices p rem st of
              Inl e \<Rightarrow> Inl e
            | Inr (k, st') \<Rightarrow>
                if 0 < k then parse_loop sub choices p (drop k rem) st'
                else
                  (case consume_optional sub choices p (drop n rem)
                          (st'\<lparr>extras := extras st' @ map (VStr \<circ> fst) (take n rem)\<rparr>) of
                     Inl e \<Rightarrow> Inl e
                   | Inr (m, st'') \<Rightarrow> parse_loop sub choices p (drop (n + Suc m) rem) st''))
         else
           (case consume_optional sub choices p rem st of
              Inl e \<Rightarrow> Inl e
            | Inr (m, st') \<Rightarrow> parse_loop sub choices p (drop (Suc m) rem) st'))"
  by pat_completeness auto
termination
  by (relation "measure (\<lambda>(sub, choices, p, rem, st). length rem)") auto

declare parse_loop.simps [simp del]

text \<open>
  The last loop of \<open>_parse_known_args\<close> over the actions that were not seen: a required
  one is reported by name; a default that is a string is converted.
\<close>

definition action_name :: "action \<Rightarrow> string" where
  "action_name a =
     (if option_strings a \<noteq> [] then str_join ''/'' (option_strings a) else dest_name a)"

fun check_required ::
  "(nat \<times> action) list \<Rightarrow> nat list \<Rightarrow> namespace \<Rightarrow> error + (namespace \<times> string list)" where
  "check_required [] sn m = Inr (m, [])"
| "check_required ((i, a) # r) sn m =
     (if i \<in> set sn then check_required r sn m
      else if required a then
        (case check_required r sn m of
           Inl e \<Rightarrow> Inl e
         | Inr (m', names) \<Rightarrow> Inr (m', action_name a # names))
      else
        (case dflt a of
           Some (VStr d) \<Rightarrow>
             if map_of m (dest_name a) = Some (VStr d) then
               (case get_value a d of
                  Inl e \<Rightarrow> Inl e
                | Inr v \<Rightarrow> check_required r sn (AList.update (dest_name a) v m))
             else check_required r sn m
         | _ \<Rightarrow> check_required r sn m))"

text \<open>\<open>_parse_known_args(arg_strings, namespace)\<close>\<close>

definition parse_known_args_body ::
  "(string \<Rightarrow> string list \<Rightarrow> error + (namespace \<times> val list)) \<Rightarrow> string list \<Rightarrow>
   parser \<Rightarrow> string list \<Rightarrow> namespace \<Rightarrow> error + (namespace \<times> val list)" where
  "parse_known_args_body sub choices p args m =
     (case classify p args of
        Inl e \<Rightarrow> Inl e
      | Inr cs \<Rightarrow>
          (case parse_loop sub choices p (zip args cs)
                  \<lparr>ns = m, seen = [], extras = [],
                   positionals = filter (\<lambda>i. option_strings (actions p ! i) = [])
                                   [0..<length (actions p)]\<rparr> of
             Inl e \<Rightarrow> Inl e
           | Inr (rem, st) \<Rightarrow>
               (case consume_positionals sub choices p rem st of
                  Inl e \<Rightarrow> Inl e
                | Inr (k, st') \<Rightarrow>
                    (case check_required (zip [0..<length (actions p)] (actions p))
                            (seen st') (ns st') of
                       Inl e \<Rightarrow> Inl e
                     | Inr (m', names) \<Rightarrow>
                         if names \<noteq> [] then Inl (SystemExit 2 (Some (RequiredArguments names)))
                         else Inr (m', extras st' @ map (VStr \<circ> fst) (drop k rem))))))"

text \<open>
  \<open>parse_known_args(args, None)\<close>: the namespace starts from the defaults of the actions
  and of the parser; an \<open>ArgumentError\<close> becomes \<open>self.error\<close>, which exits with status 2;
  at the end the attribute \<open>_unrecognized_args\<close> is moved into the extras.
\<close>

definition initial_namespace :: "parser \<Rightarrow> namespace" where
  "initial_namespace p =
     fold (\<lambda>(k, v) m. if map_of m k = None then AList.update k v m else m) (defaults p)
       (fold (\<lambda>a m. case dest a of
                       None \<Rightarrow> m
                     | Some d \<Rightarrow>
                         (case dflt a of
                            None \<Rightarrow> m
                          | Some v \<Rightarrow> if map_of m d = None then AList.update d v m else m))
             (actions p) [])"

definition iterate :: "val \<Rightarrow> error + val list" where
  "iterate v =
     (case v of
        VList xs \<Rightarrow> Inr xs
      | VStr s \<Rightarrow> Inr (map (\<lambda>c. VStr [c]) s)
      | _ \<Rightarrow> Inl (TypeError ''object is not iterable''))"

definition parse_known_args ::
  "(string \<Rightarrow> string list \<Rightarrow> error + (namespace \<times> val list)) \<Rightarrow> string list \<Rightarrow>
   parser \<Rightarrow> string list \<Rightarrow> error + (namespace \<times> val list)" where
  "parse_known_args sub choices p args =
     (case parse_known_args_body sub choices p args (initial_namespace p) of
        Inl (ArgumentError msg) \<Rightarrow> Inl (SystemExit 2 (Some msg))
      | Inl e \<Rightarrow> Inl e
      | Inr (m, ex) \<Rightarrow>
          (case map_of m ''_unrecognized_args'' of
             None \<Rightarrow> Inr (m, ex)
           | Some v \<Rightarrow>
               (case iterate v of
                  Inl e \<Rightarrow> Inl e
                | Inr xs \<Rightarrow> Inr (AList.delete ''_unrecognized_args'' m, ex @ xs))))"

text \<open>\<open>parse_args\<close>: extras are an error; the message joins them, so they must be strings.\<close>

fun the_strings :: "val list \<Rightarrow> string list option" where
  "the_strings [] = Some []"
| "the_strings (VStr s # vs) = map_option (\<lambda>r. s # r) (the_strings vs)"
| "the_strings (_ # vs) = None"

definition parse_args ::
  "(string \<Rightarrow> string list \<Rightarrow> error + (namespace \<times> val list)) \<Rightarrow> string list \<Rightarrow>
   parser \<Rightarrow> string list \<Rightarrow> error + namespace" where
  "parse_args sub choices p args =
     (case parse_known_args sub choices p args of
        Inl e \<Rightarrow> Inl e
      | Inr (m, ex) \<Rightarrow>
          if ex = [] then Inr m
          else (case the_strings ex of
                  Some strs \<Rightarrow> Inl (SystemExit 2 (Some (UnrecognizedArguments strs)))
                | None \<Rightarrow> Inl (TypeError ''sequence item: expected str instance'')))"

section \<open>The parser \<open>cli\<close> and \<open>main\<close>\<close>

text \<open>
  Lines 133 and 134: \<open>cli\<close> has its help action and the subparsers action, which is a
  positional that is not required and takes the command name and all strings after it.
\<close>

definition subparsers_action :: action where
  "subparsers_action = \<lparr>option_strings = [], dest = None, nargs = Parser,
     act_class = SubParsersAction, conv = None, dflt = Some VNone, required = False,
     helptext = []\<rparr>"

definition cli :: parser where
  "cli = \<lparr>description = [], actions = [help_action, subparsers_action],
     option_string_actions = [(''-h'', 0), (''--help'', 0)], defaults = [],
     has_negative_number_optionals = False\<rparr>"

text \<open>A parser of a command has no subparsers action of its own.\<close>

definition no_sub :: "string \<Rightarrow> string list \<Rightarrow> error + (namespace \<times> val list)" where
  "no_sub n rest = Inl (TypeError ''no subparsers'')"

text \<open>\<open>_SubParsersAction.__call__\<close>: the parser of the command parses the rest.\<close>

definition sub_parse ::
  "registry \<Rightarrow> string \<Rightarrow> string list \<Rightarrow> error + (namespace \<times> val list)" where
  "sub_parse r n rest =
     (case map_of (name_parser_map r) n of
        None \<Rightarrow> Inl (ArgumentError (UnknownParser n))
      | Some ref \<Rightarrow> parse_known_args no_sub [] (parsers r ! ref) rest)"

definition cli_parse_args :: "registry \<Rightarrow> string list \<Rightarrow> error + namespace" where
  "cli_parse_args r argv = parse_args (sub_parse r) (map fst (name_parser_map r)) cli argv"

text \<open>
  What a run of \<open>main\<close> did: the exception that ended it, if any; what it printed (the
  namespace of line 262, the help of line 264); and the handlers it called, each with the
  namespace it was given.
\<close>

datatype out = PrintArgs namespace | PrintHelp

record outcome =
  raised :: "error option"
  printed :: "out list"
  called :: "(nat \<times> namespace) list"

text \<open>The truth value of a Python object.\<close>

fun truthy :: "val \<Rightarrow> bool" where
  "truthy VNone = False"
| "truthy (VBool b) = b"
| "truthy (VStr s) = (s \<noteq> [])"
| "truthy (VInt i) = (i \<noteq> 0)"
| "truthy (VList xs) = (xs \<noteq> [])"
| "truthy (VFunc h) = True"

text \<open>\<open>main()\<close>, lines 260 to 266, on the registry and the command-line strings.\<close>

definition main :: "registry \<Rightarrow> string list \<Rightarrow> outcome" where
  "main r argv =
     (case cli_parse_args r argv of
        Inl e \<Rightarrow> \<lparr>raised = Some e, printed = [], called = []\<rparr>
      | Inr args \<Rightarrow>
          (case map_of args ''func'' of
             None \<Rightarrow>
               \<lparr>raised = Some (AttributeError ''func''), printed = [PrintArgs args], called = []\<rparr>
           | Some f \<Rightarrow>
               if \<not> truthy f
               then \<lparr>raised = None, printed = [PrintArgs args, PrintHelp], called = []\<rparr>
               else (case f of
                       VFunc h \<Rightarrow>
                         \<lparr>raised = None, printed = [PrintArgs args], called = [(h, args)]\<rparr>
                     | _ \<Rightarrow>
                         \<lparr>raised = Some (TypeError ''object is not callable''),
                          printed = [PrintArgs args], called = []\<rparr>)))"

section \<open>Notions used in the proofs\<close>

text \<open>The names and aliases a registry knows.\<close>

definition keys :: "registry \<Rightarrow> string set" where
  "keys r = set (map fst (name_parser_map r))"

text \<open>
  \<open>ext p p'\<close>: the parser \<open>p'\<close> is \<open>p\<close> with more actions added: the same defaults and
  description, the actions of \<open>p\<close> first, and every option string of \<open>p\<close> still bound to
  the same action.
\<close>

definition ext :: "parser \<Rightarrow> parser \<Rightarrow> bool" where
  "ext p p' = (defaults p' = defaults p \<and> description p' = description p \<and>
     (\<exists>xs. actions p' = actions p @ xs) \<and>
     (\<forall>s j. map_of (option_string_actions p) s = Some j \<longrightarrow>
            map_of (option_string_actions p') s = Some j))"

text \<open>The parser of a command right after \<open>set_defaults(func=func)\<close>, line 194.\<close>

definition fresh_parser :: "func \<Rightarrow> docparts \<Rightarrow> parser" where
  "fresh_parser f d = set_defaults (new_parser (longhelp d)) ''func'' (VFunc (fid f))"

text \<open>The registry of the program once its two commands are registered.\<close>

definition registered :: registry where
  "registered = (case geet of Inr m \<Rightarrow> subparsers m | Inl e \<Rightarrow> empty_registry)"

text \<open>
  Sample commands: the one the docstring of \<open>_add_subcommand\<close> describes, with the
  aliases \<open>a\<close>, \<open>b\<close> and \<open>c\<close>; a second one that declares the alias \<open>c\<close> again; one with a
  string flag as in the docstring of \<open>_add_subcommand\<close>; one with an integer flag.
\<close>

definition subvert :: func where
  "subvert = \<lparr>doc = Some (''subvert: topples the dominant paradigm.\<newline>\<newline>'' @
     ''    Aliases: a, b, c\<newline>'' @
     ''    ''), fid = 3\<rparr>"

definition subversion :: func where
  "subversion = \<lparr>doc = Some (''subversion: another command.\<newline>\<newline>'' @
     ''    Aliases: sv, c\<newline>'' @
     ''    ''), fid = 4\<rparr>"

definition commenting :: func where
  "commenting = \<lparr>doc = Some (''commenting: add a comment\<newline>\<newline>'' @
     ''    Args:\<newline>'' @
     ''       -c|--comment=string: text\<newline>'' @
     ''    ''), fid = 5\<rparr>"

definition counting :: func where
  "counting = \<lparr>doc = Some (''counting: count things\<newline>\<newline>'' @
     ''    Args:\<newline>'' @
     ''       -n|--num=int: how many\<newline>'' @
     ''    ''), fid = 6\<rparr>"

text \<open>
  Commands whose Aliases paragraph has two spaces, and no space, after the colon.
\<close>

definition spaced :: func where
  "spaced = \<lparr>doc = Some (''spaced: two spaces after the colon\<newline>\<newline>'' @
     ''    Aliases:  a, b\<newline>'' @
     ''    ''), fid = 7\<rparr>"

definition unspaced :: func where
  "unspaced = \<lparr>doc = Some (''unspaced: no space after the colon\<newline>\<newline>'' @
     ''    Aliases:a, b\<newline>'' @
     ''    ''), fid = 8\<rparr>"

text \<open>
  Commands with an argument line whose help text contains \<open>": "\<close>, and with an
  argument line without \<open>": "\<close>.
\<close>

definition wordy :: func where
  "wordy = \<lparr>doc = Some (''wordy: help with a colon\<newline>\<newline>'' @
     ''    Args:\<newline>'' @
     ''       input: note: the file to read\<newline>'' @
     ''    ''), fid = 9\<rparr>"

definition bare :: func where
  "bare = \<lparr>doc = Some (''bare: no separator\<newline>\<newline>'' @
     ''    Args:\<newline>'' @
     ''       input the file to read\<newline>'' @
     ''    ''), fid = 10\<rparr>"

text \<open>The registry of the program with the command \<open>counting\<close> registered as well.\<close>

definition counted :: registry where
  "counted = (case add_subcommand registered counting of Inr r \<Rightarrow> r | Inl e \<Rightarrow> registered)"

text \<open>The rule that the line \<open>-k|--kill: kill\<close> compiles to.\<close>

definition kill_rule :: action where
  "kill_rule = \<lparr>option_strings = [''-k'', ''--kill''], dest = Some ''kill'', nargs = NargsZero,
     act_class = StoreTrueAction, conv = None, dflt = Some (VBool False), required = False,
     helptext = ''kill''\<rparr>"

text \<open>One step of the first loop of \<open>parse_known_args\<close>: the default of an action.\<close>

definition ns_step :: "action \<Rightarrow> namespace \<Rightarrow> namespace" where
  "ns_step a m =
     (case dest a of
        None \<Rightarrow> m
      | Some d \<Rightarrow>
          (case dflt a of
             None \<Rightarrow> m
           | Some v \<Rightarrow> if map_of m d = None then AList.update d v m else m))"

section \<open>Registration\<close>

lemma map_of_fold_update:
  "map_of (fold (\<lambda>a m. AList.update a v m) als m0) k =
     (if k \<in> set als then Some v else map_of m0 k)"
  by (induction als arbitrary: m0) (auto simp: update_conv')

lemma keys_fold_update:
  "fst ` set (fold (\<lambda>a m. AList.update a v m) als m0) = set als \<union> fst ` set m0"
  by (induction als arbitrary: m0) (auto simp: dom_update)

lemma distinct_fold_update:
  "distinct (map fst m0) \<Longrightarrow> distinct (map fst (fold (\<lambda>a m. AList.update a v m) als m0))"
  by (induction als arbitrary: m0) (auto simp: distinct_update)

lemma find_None_iff_disjoint: "find P xs = None \<longleftrightarrow> (\<forall>x\<in>set xs. \<not> P x)"
  by (induction xs) auto

lemma add_parser_Inr_eq:
  assumes "add_parser r n h d als = Inr (r', ref)"
  shows "n \<notin> keys r \<and> set als \<inter> keys r = {} \<and> ref = length (parsers r) \<and>
         r' = \<lparr>name_parser_map =
                  fold (\<lambda>a m. AList.update a ref m) als (AList.update n ref (name_parser_map r)),
                choices_actions = choices_actions r @ [(n, als, h)],
                parsers = parsers r @ [new_parser d]\<rparr>"
  using assms
  by (auto simp: add_parser_def keys_def Let_def find_None_iff_disjoint
      split: if_splits option.splits)

lemma add_parser_Inr:
  assumes "add_parser r n h d als = Inr (r', ref)"
  shows "ref = length (parsers r)"
    and "parsers r' = parsers r @ [new_parser d]"
    and "map_of (name_parser_map r') k =
           (if k \<in> set (n # als) then Some ref else map_of (name_parser_map r) k)"
    and "n \<notin> keys r" and "set als \<inter> keys r = {}"
    and "keys r' = set (n # als) \<union> keys r"
    and "distinct (map fst (name_parser_map r)) \<Longrightarrow> distinct (map fst (name_parser_map r'))"
proof -
  note eq = add_parser_Inr_eq [OF assms]
  show "ref = length (parsers r)" "parsers r' = parsers r @ [new_parser d]"
    "n \<notin> keys r" "set als \<inter> keys r = {}"
    using eq by simp_all
  show "map_of (name_parser_map r') k =
           (if k \<in> set (n # als) then Some ref else map_of (name_parser_map r) k)"
    using eq by (simp add: map_of_fold_update update_conv')
  have "fst ` set (name_parser_map r') = set als \<union> ({n} \<union> fst ` set (name_parser_map r))"
    using eq by (simp add: keys_fold_update dom_update)
  then show "keys r' = set (n # als) \<union> keys r"
    by (auto simp: keys_def)
  show "distinct (map fst (name_parser_map r'))" if "distinct (map fst (name_parser_map r))"
    using eq that by (simp add: distinct_fold_update distinct_update)
qed

lemma add_parser_conflict:
  assumes "k \<in> set (n # als)" "k \<in> keys r"
  shows "add_parser r n h d als = Inl (ArgumentError (ConflictingSubparser n)) \<or>
         (\<exists>a \<in> set als. add_parser r n h d als = Inl (ArgumentError (ConflictingSubparserAlias a)))"
proof (cases "n \<in> keys r")
  case True
  then show ?thesis by (simp add: add_parser_def keys_def)
next
  case False
  with assms have "k \<in> set als" by auto
  with assms(2) obtain a where a: "find (\<lambda>a. a \<in> keys r) als = Some a"
    by (cases "find (\<lambda>a. a \<in> keys r) als") (auto simp: find_None_iff_disjoint)
  then have "a \<in> set als" by (auto simp: find_Some_iff)
  with a False show ?thesis by (auto simp: add_parser_def keys_def)
qed

lemma ext_refl: "ext p p"
  by (simp add: ext_def)

lemma ext_trans: "ext p q \<Longrightarrow> ext q r \<Longrightarrow> ext p r"
  by (auto simp: ext_def)

lemma map_of_fold_update_idx:
  "map_of (fold (\<lambda>s m. AList.update s v m) ss m0) k =
     (if k \<in> set ss then Some v else map_of m0 k)"
  by (induction ss arbitrary: m0) (auto simp: update_conv')

lemma add_action_Inr:
  assumes "add_action p a = Inr p'"
  shows "actions p' = actions p @ [a]"
    and "defaults p' = defaults p"
    and "description p' = description p"
    and "map_of (option_string_actions p') s =
           (if s \<in> set (option_strings a) then Some (length (actions p))
            else map_of (option_string_actions p) s)"
    and "\<forall>s \<in> set (option_strings a). map_of (option_string_actions p) s = None"
proof -
  have c: "filter (\<lambda>s. s \<in> set (map fst (option_string_actions p))) (option_strings a) = []"
    and eq: "p' = p\<lparr>actions := actions p @ [a],
                    option_string_actions :=
                      fold (\<lambda>s m. AList.update s (length (actions p)) m) (option_strings a)
                        (option_string_actions p),
                    has_negative_number_optionals :=
                      (has_negative_number_optionals p \<or>
                       list_ex negative_number (option_strings a))\<rparr>"
    using assms by (auto simp: add_action_def Let_def split: if_splits)
  show "actions p' = actions p @ [a]" "defaults p' = defaults p"
    "description p' = description p"
    using eq by simp_all
  show "map_of (option_string_actions p') s =
           (if s \<in> set (option_strings a) then Some (length (actions p))
            else map_of (option_string_actions p) s)"
    using eq by (simp add: map_of_fold_update_idx)
  show "\<forall>s \<in> set (option_strings a). map_of (option_string_actions p) s = None"
    using c by (auto simp: filter_empty_conv map_of_eq_None_iff)
qed

lemma add_action_ext: "add_action p a = Inr p' \<Longrightarrow> ext p p'"
  using add_action_Inr [of p a p'] by (auto simp: ext_def)

lemma add_argument_Inr:
  assumes "add_argument p args kw = Inr p'"
  shows "\<exists>a. add_action p a = Inr p'"
  using assms
  by (auto simp: add_argument_def split: list.splits if_splits sum.splits prod.splits)

lemma add_argument_ext: "add_argument p args kw = Inr p' \<Longrightarrow> ext p p'"
  using add_argument_Inr add_action_ext by blast

lemma add_args_Cons_Inr:
  assumes "add_args (ln # ls) p = Inr p'"
  shows "\<exists>q. add_args [ln] p = Inr q \<and> add_args ls q = Inr p' \<and> length ln = 2"
  using assms
  by (auto split: list.splits sum.splits prod.splits)

lemma add_args_single_ext: "add_args [ln] p = Inr q \<Longrightarrow> ext p q"
  by (auto split: list.splits sum.splits prod.splits dest: add_argument_ext)

lemma add_args_ext: "add_args ls p = Inr p' \<Longrightarrow> ext p p'"
proof (induction ls arbitrary: p)
  case Nil
  then show ?case by (simp add: ext_refl)
next
  case (Cons ln ls)
  from add_args_Cons_Inr [OF Cons.prems] obtain q
    where q: "add_args [ln] p = Inr q" "add_args ls q = Inr p'" by blast
  with Cons.IH add_args_single_ext ext_trans show ?case by blast
qed

lemma add_args_mem:
  assumes "add_args ls p = Inr p'" "ln \<in> set ls"
  shows "\<exists>q q'. ext p q \<and> add_args [ln] q = Inr q' \<and> ext q' p'"
  using assms
proof (induction ls arbitrary: p)
  case Nil
  then show ?case by simp
next
  case (Cons l ls)
  from add_args_Cons_Inr [OF Cons.prems(1)] obtain q
    where q: "add_args [l] p = Inr q" "add_args ls q = Inr p'" by blast
  show ?case
  proof (cases "ln = l")
    case True
    with q add_args_ext ext_refl show ?thesis by blast
  next
    case False
    with Cons.prems have "ln \<in> set ls" by simp
    from Cons.IH [OF q(2) this] obtain q1 q2
      where "ext q q1" "add_args [ln] q1 = Inr q2" "ext q2 p'" by blast
    with add_args_single_ext [OF q(1)] ext_trans show ?thesis by blast
  qed
qed

lemma add_args_all_two:
  assumes "add_args ls p = Inr p'"
  shows "\<forall>ln \<in> set ls. length ln = 2"
  using assms
proof (induction ls arbitrary: p)
  case Nil
  then show ?case by simp
next
  case (Cons l ls)
  from add_args_Cons_Inr [OF Cons.prems] Cons.IH show ?case by auto
qed

lemma fresh_parser_simps:
  "defaults (fresh_parser f d) = [(''func'', VFunc (fid f))]"
  "actions (fresh_parser f d) = [help_action]"
  "option_string_actions (fresh_parser f d) = [(''-h'', 0), (''--help'', 0)]"
  "description (fresh_parser f d) = longhelp d"
  by (simp_all add: fresh_parser_def set_defaults_def new_parser_def help_action_def)

lemma add_subcommand_Inr:
  assumes "add_subcommand parent f = Inr r"
  shows "\<exists>docstr d r' p'.
           doc f = Some docstr \<and> parse_doc docstr = Inr d \<and>
           add_parser parent (name d) (shorthelp d) (longhelp d) (aliases d)
             = Inr (r', length (parsers parent)) \<and>
           r = r'\<lparr>parsers := (parsers r')[length (parsers parent) := p']\<rparr> \<and>
           (if args_list d \<noteq> []
            then add_args (arg_lines (hd (args_list d))) (fresh_parser f d) = Inr p'
            else p' = fresh_parser f d)"
proof -
  from assms obtain docstr where ds: "doc f = Some docstr"
    by (auto simp: add_subcommand_def split: option.splits)
  with assms obtain d where d: "parse_doc docstr = Inr d"
    by (auto simp: add_subcommand_def split: sum.splits)
  with assms ds obtain r' ref where
    ap: "add_parser parent (name d) (shorthelp d) (longhelp d) (aliases d) = Inr (r', ref)"
    by (auto simp: add_subcommand_def split: sum.splits)
  note ra = add_parser_Inr [OF ap]
  have nth: "parsers r' ! ref = new_parser (longhelp d)"
    using ra(1,2) by simp
  show ?thesis
  proof (cases "args_list d = []")
    case True
    with assms ds d ap nth ra(1) show ?thesis
      by (auto simp: add_subcommand_def fresh_parser_def Let_def)
  next
    case False
    with assms ds d ap nth ra(1) show ?thesis
      by (auto simp: add_subcommand_def fresh_parser_def Let_def split: sum.splits)
  qed
qed

lemma add_subcommand_ext:
  assumes "add_subcommand parent f = Inr r"
  shows "\<exists>docstr d r' p'.
           doc f = Some docstr \<and> parse_doc docstr = Inr d \<and>
           add_parser parent (name d) (shorthelp d) (longhelp d) (aliases d)
             = Inr (r', length (parsers parent)) \<and>
           name_parser_map r = name_parser_map r' \<and>
           length (parsers r) = Suc (length (parsers parent)) \<and>
           parsers r ! length (parsers parent) = p' \<and>
           take (length (parsers parent)) (parsers r) = parsers parent \<and>
           ext (fresh_parser f d) p'"
proof -
  from add_subcommand_Inr [OF assms] obtain docstr d r' p' where
    h: "doc f = Some docstr" "parse_doc docstr = Inr d"
       "add_parser parent (name d) (shorthelp d) (longhelp d) (aliases d)
          = Inr (r', length (parsers parent))"
       "r = r'\<lparr>parsers := (parsers r')[length (parsers parent) := p']\<rparr>"
       "if args_list d \<noteq> []
        then add_args (arg_lines (hd (args_list d))) (fresh_parser f d) = Inr p'
        else p' = fresh_parser f d"
    by blast
  note ra = add_parser_Inr [OF h(3)]
  have e: "ext (fresh_parser f d) p'"
    using h(5) by (auto simp: ext_refl dest: add_args_ext split: if_splits)
  have "parsers r = parsers parent @ [p']"
    using h(4) ra(2) by simp
  with h e show ?thesis by auto
qed

lemma index_true_find:
  assumes "find P ps = Some x"
  shows "\<exists>i. index_true (map P ps) = Some i \<and> i < length ps \<and> ps ! i = x \<and> P x"
  using assms
proof (induction ps)
  case Nil
  then show ?case by simp
next
  case (Cons p ps)
  show ?case
  proof (cases "P p")
    case True
    with Cons.prems show ?thesis by (simp add: index_true_def)
  next
    case False
    with Cons.prems have "find P ps = Some x" by simp
    from Cons.IH [OF this] obtain i where
      "index_true (map P ps) = Some i" "i < length ps" "ps ! i = x" "P x" by blast
    with False show ?thesis
      by (auto simp: index_true_def split: if_splits)
  qed
qed

lemma index_true_find_None:
  assumes "find P ps = None"
  shows "index_true (map P ps) = None"
  using assms by (auto simp: index_true_def find_None_iff_disjoint)

lemma index_true_Some:
  assumes "index_true (map P ps) = Some i"
  shows "i < length ps \<and> P (ps ! i) \<and> find P ps = Some (ps ! i)"
proof (cases "find P ps")
  case None
  with index_true_find_None [of P ps] assms show ?thesis by simp
next
  case (Some x)
  from index_true_find [OF this] assms Some show ?thesis by auto
qed

lemma find_del_at:
  assumes "i < length ps" "\<not> P (ps ! i)"
  shows "find P (del_at i ps) = find P ps"
  using assms
proof (induction ps arbitrary: i)
  case Nil
  then show ?case by simp
next
  case (Cons p ps)
  show ?case
  proof (cases i)
    case 0
    with Cons.prems show ?thesis by (simp add: del_at_def)
  next
    case (Suc j)
    with Cons.prems have "find P (del_at j ps) = find P ps"
      using Cons.IH [of j] by simp
    with Suc show ?thesis by (simp add: del_at_def)
  qed
qed

lemma take_aliases_find:
  "fst (take_aliases ps) =
     (case find (\<lambda>x. startswith x ''Aliases:'') ps of
        None \<Rightarrow> []
      | Some x \<Rightarrow> map str_strip (str_split (drop 9 x) '',''))"
proof (cases "find (\<lambda>x. startswith x ''Aliases:'') ps")
  case None
  with index_true_find_None [OF None] show ?thesis by (simp add: take_aliases_def)
next
  case (Some x)
  from index_true_find [OF Some] Some show ?thesis by (auto simp: take_aliases_def)
qed

lemma startswith_append: "startswith x p \<Longrightarrow> \<exists>r. x = p @ r"
  by (metis append_take_drop_id startswith_def)

lemma startswith_appendI [simp]: "startswith (p @ r) p"
  by (simp add: startswith_def)

lemma args_not_aliases: "startswith x ''Args:\<newline>'' \<Longrightarrow> \<not> startswith x ''Aliases:''"
proof
  assume "startswith x ''Args:\<newline>''" and "startswith x ''Aliases:''"
  then obtain r1 r2 where "x = ''Args:\<newline>'' @ r1" "x = ''Aliases:'' @ r2"
    using startswith_append by blast
  then show False by simp
qed

lemma take_args_find_aliases:
  "find (\<lambda>x. startswith x ''Aliases:'') (snd (take_args ps)) =
   find (\<lambda>x. startswith x ''Aliases:'') ps"
proof (cases "index_true (map (\<lambda>x. startswith x ''Args:\<newline>'') ps)")
  case None
  then show ?thesis by (simp add: take_args_def)
next
  case (Some i)
  from index_true_Some [OF Some] have "i < length ps" "startswith (ps ! i) ''Args:\<newline>''"
    by auto
  with find_del_at [of i ps "\<lambda>x. startswith x ''Aliases:''"] args_not_aliases Some
  show ?thesis by (simp add: take_args_def)
qed

lemma parse_doc_Inr:
  assumes "parse_doc docstr = Inr d"
  shows "\<exists>p0 ps. paragraphs_of docstr = p0 # ps \<and> str_split p0 '': '' = [name d, shorthelp d] \<and>
           args_list d = fst (take_args ps) \<and>
           aliases d = fst (take_aliases (snd (take_args ps))) \<and>
           longhelp d = str_join ''\<newline>\<newline>'' (snd (take_aliases (snd (take_args ps))))"
  using assms
  by (auto simp: parse_doc_def Let_def split: list.splits prod.splits)

lemma parse_doc_aliases:
  assumes "parse_doc docstr = Inr d"
  shows "aliases d =
     (case find (\<lambda>x. startswith x ''Aliases:'') (tl (paragraphs_of docstr)) of
        None \<Rightarrow> []
      | Some x \<Rightarrow> map str_strip (str_split (drop 9 x) '',''))"
proof -
  from parse_doc_Inr [OF assms] obtain p0 ps where
    "paragraphs_of docstr = p0 # ps" "aliases d = fst (take_aliases (snd (take_args ps)))"
    by blast
  then show ?thesis
    by (simp add: take_aliases_find take_args_find_aliases)
qed

lemma aliases_abc: "map str_strip (str_split (drop 9 ''Aliases: a, b, c'') '','') = [''a'', ''b'', ''c'']"
  by code_simp

lemma add_subcommand_keys:
  assumes "add_subcommand parent f = Inr r" "doc f = Some docstr" "parse_doc docstr = Inr d"
  shows "map_of (name_parser_map r) k =
           (if k \<in> set (name d # aliases d) then Some (length (parsers parent))
            else map_of (name_parser_map parent) k)"
    and "keys r = set (name d # aliases d) \<union> keys parent"
    and "distinct (map fst (name_parser_map parent)) \<Longrightarrow> distinct (map fst (name_parser_map r))"
    and "length (parsers r) = Suc (length (parsers parent))"
    and "take (length (parsers parent)) (parsers r) = parsers parent"
    and "ext (fresh_parser f d) (parsers r ! length (parsers parent))"
proof -
  from add_subcommand_ext [OF assms(1)] assms(2,3) obtain r' where
    h: "add_parser parent (name d) (shorthelp d) (longhelp d) (aliases d)
          = Inr (r', length (parsers parent))"
       "name_parser_map r = name_parser_map r'"
       "length (parsers r) = Suc (length (parsers parent))"
       "take (length (parsers parent)) (parsers r) = parsers parent"
       "ext (fresh_parser f d) (parsers r ! length (parsers parent))"
    by auto
  note ra = add_parser_Inr [OF h(1)]
  show "map_of (name_parser_map r) k =
           (if k \<in> set (name d # aliases d) then Some (length (parsers parent))
            else map_of (name_parser_map parent) k)"
    using ra(3) [of k] h(2) by simp
  show "keys r = set (name d # aliases d) \<union> keys parent"
    using ra(6) h(2) by (simp add: keys_def)
  show "distinct (map fst (name_parser_map r))" if "distinct (map fst (name_parser_map parent))"
    using ra(7) [OF that] h(2) by simp
  show "length (parsers r) = Suc (length (parsers parent))"
    "take (length (parsers parent)) (parsers r) = parsers parent"
    "ext (fresh_parser f d) (parsers r ! length (parsers parent))"
    using h by simp_all
qed

lemma add_subcommand_conflict:
  assumes "doc f = Some docstr" "parse_doc docstr = Inr d"
    and "k \<in> set (name d # aliases d)" "k \<in> set (map fst (name_parser_map r))"
  shows "add_subcommand r f = Inl (ArgumentError (ConflictingSubparser (name d))) \<or>
         (\<exists>a \<in> set (aliases d).
            add_subcommand r f = Inl (ArgumentError (ConflictingSubparserAlias a)))"
  using add_parser_conflict [of k "name d" "aliases d" r "shorthelp d" "longhelp d"] assms
  by (auto simp: add_subcommand_def keys_def)

text \<open>
  Claim C4. When a command has been registered and a second command declares a name or an
  alias that the first one declared, registering the second raises \<open>ArgumentError\<close>
  (conflicting subparser, or conflicting subparser alias) inside \<open>_add_subcommand\<close>, so the
  decorated definition fails while the module is loaded, before \<open>main\<close> can run. Every
  registration keeps the keys it found, bound as they were, and keeps the keys distinct.
\<close>

theorem duplicate_name_or_alias_is_rejected:
  assumes "doc f1 = Some doc1" and "parse_doc doc1 = Inr d1"
    and "add_subcommand r0 f1 = Inr r1"
    and "doc f2 = Some doc2" and "parse_doc doc2 = Inr d2"
    and "k \<in> set (name d1 # aliases d1)" and "k \<in> set (name d2 # aliases d2)"
  shows "(add_subcommand r1 f2 = Inl (ArgumentError (ConflictingSubparser (name d2))) \<or>
          (\<exists>a \<in> set (aliases d2).
             add_subcommand r1 f2 = Inl (ArgumentError (ConflictingSubparserAlias a)))) \<and>
         (\<exists>e. def_subcommand \<lparr>globals = g, subparsers = r1\<rparr> n f2 = Inl (ArgumentError e)) \<and>
         (\<forall>r r' f. add_subcommand r f = Inr r' \<longrightarrow>
            set (map fst (name_parser_map r)) \<subseteq> set (map fst (name_parser_map r')) \<and>
            (distinct (map fst (name_parser_map r)) \<longrightarrow> distinct (map fst (name_parser_map r'))) \<and>
            (\<forall>k' j. map_of (name_parser_map r) k' = Some j \<longrightarrow>
                     map_of (name_parser_map r') k' = Some j))"
proof -
  have k1: "k \<in> set (map fst (name_parser_map r1))"
    using add_subcommand_keys(2) [OF assms(3) assms(1) assms(2)] assms(6)
    by (auto simp: keys_def)
  have c: "add_subcommand r1 f2 = Inl (ArgumentError (ConflictingSubparser (name d2))) \<or>
          (\<exists>a \<in> set (aliases d2).
             add_subcommand r1 f2 = Inl (ArgumentError (ConflictingSubparserAlias a)))"
    by (rule add_subcommand_conflict [OF assms(4) assms(5) assms(7) k1])
  then have d: "\<exists>e. def_subcommand \<lparr>globals = g, subparsers = r1\<rparr> n f2 = Inl (ArgumentError e)"
    by (auto simp: def_subcommand_def decorator_def)
  have p: "set (map fst (name_parser_map r)) \<subseteq> set (map fst (name_parser_map r')) \<and>
            (distinct (map fst (name_parser_map r)) \<longrightarrow> distinct (map fst (name_parser_map r'))) \<and>
            (\<forall>k' j. map_of (name_parser_map r) k' = Some j \<longrightarrow>
                     map_of (name_parser_map r') k' = Some j)"
    if a: "add_subcommand r f = Inr r'" for r r' f
  proof -
    from add_subcommand_Inr [OF a] obtain docstr d where
      dd: "doc f = Some docstr" "parse_doc docstr = Inr d" by blast
    note ks = add_subcommand_keys [OF a dd]
    from add_subcommand_ext [OF a] dd obtain r'' where
      ap: "add_parser r (name d) (shorthelp d) (longhelp d) (aliases d)
            = Inr (r'', length (parsers r))" by auto
    note ra = add_parser_Inr [OF ap]
    have "map_of (name_parser_map r') k' = Some j"
      if "map_of (name_parser_map r) k' = Some j" for k' j
    proof -
      from that have "k' \<in> keys r"
        by (auto simp: keys_def dest: map_of_SomeD intro: rev_image_eqI)
      with ra(4,5) have "k' \<notin> set (name d # aliases d)" by auto
      with ks(1) [of k'] that show ?thesis by simp
    qed
    with ks(2,3) show ?thesis by (auto simp: keys_def)
  qed
  from c d p show ?thesis by blast
qed

theorem duplicate_name_or_alias_is_rejected_witness:
  "add_subcommand empty_registry subvert = Inr (projr (add_subcommand empty_registry subvert)) \<and>
   ''c'' \<in> set (name (projr (parse_doc (the (doc subvert)))) #
                aliases (projr (parse_doc (the (doc subvert))))) \<and>
   ''c'' \<in> set (name (projr (parse_doc (the (doc subversion)))) #
                aliases (projr (parse_doc (the (doc subversion))))) \<and>
   add_subcommand (projr (add_subcommand empty_registry subvert)) subversion =
     Inl (ArgumentError (ConflictingSubparserAlias ''c''))"
proof -
  have h1: "doc subvert = Some (the (doc subvert))" by code_simp
  have h2: "parse_doc (the (doc subvert)) = Inr (projr (parse_doc (the (doc subvert))))"
    by code_simp
  have h3: "add_subcommand empty_registry subvert
              = Inr (projr (add_subcommand empty_registry subvert))"
    by code_simp
  have h4: "doc subversion = Some (the (doc subversion))" by code_simp
  have h5: "parse_doc (the (doc subversion)) = Inr (projr (parse_doc (the (doc subversion))))"
    by code_simp
  have h6: "''c'' \<in> set (name (projr (parse_doc (the (doc subvert)))) #
                aliases (projr (parse_doc (the (doc subvert)))))"
    by code_simp
  have h7: "''c'' \<in> set (name (projr (parse_doc (the (doc subversion)))) #
                aliases (projr (parse_doc (the (doc subversion)))))"
    by code_simp
  have e: "add_subcommand (projr (add_subcommand empty_registry subvert)) subversion =
     Inl (ArgumentError (ConflictingSubparserAlias ''c''))"
    by code_simp
  from duplicate_name_or_alias_is_rejected [OF h1 h2 h3 h4 h5 h6 h7] h3 h6 h7 e
  show ?thesis by blast
qed

lemma map_of_ext_defaults:
  "ext (fresh_parser f d) p \<Longrightarrow> map_of (defaults p) ''func'' = Some (VFunc (fid f))"
  by (simp add: ext_def fresh_parser_simps)

text \<open>
  Claim C6. When the first paragraph of the docstring that starts with \<open>Aliases:\<close> is
  \<open>Aliases: a, b, c\<close> and the registration succeeds, the alias list is \<open>a\<close>, \<open>b\<close>, \<open>c\<close>, and
  each of \<open>a\<close>, \<open>b\<close>, \<open>c\<close> and the name of the command is bound to one and the same parser
  object: the subparsers action hands the rest of the command line to that parser, whose
  defaults hold the handler.
\<close>

theorem aliases_resolve_to_one_command:
  assumes "doc f = Some docstr"
    and "find (\<lambda>x. startswith x ''Aliases:'') (tl (paragraphs_of docstr))
           = Some ''Aliases: a, b, c''"
    and "add_subcommand parent f = Inr r"
  shows "\<exists>d ref. parse_doc docstr = Inr d \<and> aliases d = [''a'', ''b'', ''c''] \<and>
           ref < length (parsers r) \<and>
           (\<forall>k \<in> set [''a'', ''b'', ''c'', name d].
              map_of (name_parser_map r) k = Some ref \<and>
              (\<forall>rest. sub_parse r k rest = parse_known_args no_sub [] (parsers r ! ref) rest)) \<and>
           map_of (defaults (parsers r ! ref)) ''func'' = Some (VFunc (fid f))"
proof -
  from add_subcommand_Inr [OF assms(3)] assms(1) obtain d where
    d: "parse_doc docstr = Inr d" by auto
  have al: "aliases d = [''a'', ''b'', ''c'']"
    using parse_doc_aliases [OF d] assms(2) aliases_abc by simp
  note ks = add_subcommand_keys [OF assms(3) assms(1) d]
  let ?ref = "length (parsers parent)"
  have m: "map_of (name_parser_map r) k = Some ?ref" if "k \<in> set [''a'', ''b'', ''c'', name d]" for k
    using ks(1) [of k] that al by auto
  then have sp: "sub_parse r k rest = parse_known_args no_sub [] (parsers r ! ?ref) rest"
    if "k \<in> set [''a'', ''b'', ''c'', name d]" for k rest
    using that by (simp add: sub_parse_def)
  have "?ref < length (parsers r)" using ks(4) by simp
  moreover have "map_of (defaults (parsers r ! ?ref)) ''func'' = Some (VFunc (fid f))"
    using ks(6) by (rule map_of_ext_defaults)
  ultimately show ?thesis using d al m sp by blast
qed

theorem aliases_resolve_to_one_command_witness:
  "find (\<lambda>x. startswith x ''Aliases:'') (tl (paragraphs_of (the (doc subvert))))
     = Some ''Aliases: a, b, c'' \<and>
   add_subcommand empty_registry subvert = Inr (projr (add_subcommand empty_registry subvert)) \<and>
   map_of (name_parser_map (projr (add_subcommand empty_registry subvert))) ''a'' = Some 0 \<and>
   map_of (name_parser_map (projr (add_subcommand empty_registry subvert))) ''b'' = Some 0 \<and>
   map_of (name_parser_map (projr (add_subcommand empty_registry subvert))) ''c'' = Some 0 \<and>
   map_of (name_parser_map (projr (add_subcommand empty_registry subvert))) ''subvert'' = Some 0 \<and>
   (\<exists>ref. map_of (defaults (parsers (projr (add_subcommand empty_registry subvert)) ! ref)) ''func''
            = Some (VFunc 3))"
proof -
  have h1: "doc subvert = Some (the (doc subvert))" by code_simp
  have h2: "find (\<lambda>x. startswith x ''Aliases:'') (tl (paragraphs_of (the (doc subvert))))
     = Some ''Aliases: a, b, c''" by code_simp
  have h3: "add_subcommand empty_registry subvert
              = Inr (projr (add_subcommand empty_registry subvert))"
    by code_simp
  have f: "fid subvert = 3" by code_simp
  have m: "map_of (name_parser_map (projr (add_subcommand empty_registry subvert))) ''a'' = Some 0"
    "map_of (name_parser_map (projr (add_subcommand empty_registry subvert))) ''b'' = Some 0"
    "map_of (name_parser_map (projr (add_subcommand empty_registry subvert))) ''c'' = Some 0"
    "map_of (name_parser_map (projr (add_subcommand empty_registry subvert))) ''subvert'' = Some 0"
    by code_simp+
  from aliases_resolve_to_one_command [OF h1 h2 h3] f h2 h3 m
  show ?thesis by auto
qed

lemma snd_set_update: "snd ` set (AList.update k v al) \<subseteq> insert v (snd ` set al)"
  by (induction al) auto

text \<open>
  Claim C9. The decorator returns \<open>None\<close>, so a decorated definition that succeeds binds
  the global name to \<open>None\<close>: calling the name raises \<open>TypeError\<close>. The handler is held by
  the defaults of the parser that the registration created, and the globals hold it only if
  they held it before.
\<close>

theorem decorated_name_is_bound_to_None:
  assumes "def_subcommand m n f = Inr m'"
  shows "decorator (subparsers m) f = Inr (subparsers m', VNone) \<and>
         map_of (globals m') n = Some VNone \<and>
         call_global m' n = Inl (TypeError ''object is not callable'') \<and>
         length (parsers (subparsers m)) < length (parsers (subparsers m')) \<and>
         map_of (defaults (parsers (subparsers m') ! length (parsers (subparsers m)))) ''func''
           = Some (VFunc (fid f)) \<and>
         (VFunc (fid f) \<in> snd ` set (globals m') \<longrightarrow> VFunc (fid f) \<in> snd ` set (globals m))"
proof -
  from assms obtain r where r: "add_subcommand (subparsers m) f = Inr r"
    and m': "m' = \<lparr>globals = AList.update n VNone (globals m), subparsers = r\<rparr>"
    by (auto simp: def_subcommand_def decorator_def split: sum.splits)
  from add_subcommand_Inr [OF r] obtain docstr d where
    dd: "doc f = Some docstr" "parse_doc docstr = Inr d" by blast
  note ks = add_subcommand_keys [OF r dd]
  have g: "map_of (globals m') n = Some VNone"
    using m' by (simp add: update_conv')
  have "snd ` set (globals m') \<subseteq> insert VNone (snd ` set (globals m))"
    using m' snd_set_update [of n VNone "globals m"] by simp
  then have fr: "VFunc (fid f) \<in> snd ` set (globals m') \<longrightarrow> VFunc (fid f) \<in> snd ` set (globals m)"
    by auto
  have "decorator (subparsers m) f = Inr (subparsers m', VNone)"
    using r m' by (simp add: decorator_def)
  moreover have "call_global m' n = Inl (TypeError ''object is not callable'')"
    using g by (simp add: call_global_def)
  moreover have "length (parsers (subparsers m)) < length (parsers (subparsers m'))"
    using ks(4) m' by simp
  moreover have "map_of (defaults (parsers (subparsers m') ! length (parsers (subparsers m)))) ''func''
           = Some (VFunc (fid f))"
    using map_of_ext_defaults [OF ks(6)] m' by simp
  ultimately show ?thesis using g fr by blast
qed

theorem decorated_name_is_bound_to_None_witness:
  "def_subcommand empty_module ''testing'' testing
     = Inr (projr (def_subcommand empty_module ''testing'' testing)) \<and>
   map_of (globals (projr (def_subcommand empty_module ''testing'' testing))) ''testing''
     = Some VNone \<and>
   call_global (projr (def_subcommand empty_module ''testing'' testing)) ''testing''
     = Inl (TypeError ''object is not callable'') \<and>
   map_of (defaults (parsers (subparsers (projr (def_subcommand empty_module ''testing'' testing)))
             ! 0)) ''func'' = Some (VFunc 1)"
proof -
  have h: "def_subcommand empty_module ''testing'' testing
     = Inr (projr (def_subcommand empty_module ''testing'' testing))"
    by code_simp
  have z: "length (parsers (subparsers empty_module)) = 0" "fid testing = 1"
    by code_simp+
  from decorated_name_is_bound_to_None [OF h] h z show ?thesis by simp
qed

section \<open>The program on concrete command lines\<close>

text \<open>
  Claim C1. The line \<open>files...: One or more files.\<close> compiles to a required positional
  with the action \<open>append\<close> and \<open>nargs="+"\<close>, and the command \<open>testing\<close> without a token
  for it ends in the usage error for a missing argument. With the tokens \<open>a b c\<close> the
  argument is bound to a list that holds one list, \<open>[["a", "b", "c"]]\<close>, not to the flat
  sequence: \<open>append\<close> appends the list that \<open>nargs="+"\<close> collected.
\<close>

theorem repeated_positional_binds_a_nested_list:
  "compile_arg ''files...'' ''One or more files.'' =
     Inr ([''files''], \<lparr>kw_action = KAppend, kw_type = None, kw_default_empty = False,
                          kw_nargs_plus = True, kw_help = ''One or more files.''\<rparr>) \<and>
   actions (parsers registered ! 0) ! 2 =
     \<lparr>option_strings = [], dest = Some ''files'', nargs = OneOrMore,
      act_class = AppendAction, conv = None, dflt = Some VNone, required = True,
      helptext = ''One or more files.''\<rparr> \<and>
   main registered [''testing'', ''b''] =
     \<lparr>raised = Some (SystemExit 2 (Some (RequiredArguments [''files'']))),
      printed = [], called = []\<rparr> \<and>
   called (main registered [''testing'', ''b'', ''a'', ''b'', ''c'']) =
     [(1, [(''branch'', VStr ''b''),
           (''files'', VList [VList [VStr ''a'', VStr ''b'', VStr ''c'']]),
           (''kill'', VBool False), (''func'', VFunc 1)])]"
  by code_simp

lemma compile_comment:
  "compile_arg ''-c|--comment=string'' ''text'' =
     Inr ([''-c'', ''--comment''], \<lparr>kw_action = KStore, kw_type = Some TStrLiteral,
            kw_default_empty = False, kw_nargs_plus = False, kw_help = ''text''\<rparr>)"
  by code_simp

lemma add_argument_str_literal:
  "kw_type kw = Some TStrLiteral \<Longrightarrow> kw_action kw = KStore \<Longrightarrow>
   \<exists>e. add_argument p args kw = Inl e"
  by (auto simp: add_argument_def make_action_def Let_def split: list.splits sum.splits)

lemma add_args_comment_line:
  assumes "[''-c|--comment=string'', ''text''] \<in> set ls"
  shows "\<exists>e. add_args ls p = Inl e"
proof (cases "add_args ls p")
  case (Inl e)
  then show ?thesis by blast
next
  case (Inr p')
  from add_args_mem [OF Inr assms] obtain q q' where
    "add_args [[''-c|--comment=string'', ''text'']] q = Inr q'" by blast
  moreover have "\<exists>e. add_argument q [''-c'', ''--comment'']
      \<lparr>kw_action = KStore, kw_type = Some TStrLiteral,
       kw_default_empty = False, kw_nargs_plus = False, kw_help = ''text''\<rparr> = Inl e"
    by (rule add_argument_str_literal) simp_all
  ultimately show ?thesis by (auto simp: compile_comment)
qed

text \<open>
  Claim C2. The line \<open>-c|--comment=string: text\<close> compiles to the keywords
  \<open>action="store"\<close> and \<open>type="str"\<close>, the string and not the builtin; \<open>add_argument\<close>
  refuses a type that is not callable, so registering a command with this line raises
  \<open>ValueError\<close> and the module does not load: no rule is produced and nothing can be
  invoked. This does not depend on the other lines of the Args body or on the parser:
  a list of lines that holds this line is never added.
\<close>

theorem string_flag_fails_at_registration:
  "compile_arg ''-c|--comment=string'' ''text'' =
     Inr ([''-c'', ''--comment''], \<lparr>kw_action = KStore, kw_type = Some TStrLiteral,
            kw_default_empty = False, kw_nargs_plus = False, kw_help = ''text''\<rparr>) \<and>
   add_subcommand registered commenting = Inl (ValueError ''type is not callable'') \<and>
   def_subcommand \<lparr>globals = [], subparsers = registered\<rparr> ''commenting'' commenting =
     Inl (ValueError ''type is not callable'') \<and>
   ([''-c|--comment=string'', ''text''] \<in> set ls \<longrightarrow> (\<exists>e. add_args ls p = Inl e))"
proof -
  have "compile_arg ''-c|--comment=string'' ''text'' =
     Inr ([''-c'', ''--comment''], \<lparr>kw_action = KStore, kw_type = Some TStrLiteral,
            kw_default_empty = False, kw_nargs_plus = False, kw_help = ''text''\<rparr>)"
    by (rule compile_comment)
  moreover have
    "add_subcommand registered commenting = Inl (ValueError ''type is not callable'')"
    by code_simp
  moreover have
    "def_subcommand \<lparr>globals = [], subparsers = registered\<rparr> ''commenting'' commenting =
       Inl (ValueError ''type is not callable'')"
    by code_simp
  ultimately show ?thesis using add_args_comment_line by blast
qed

theorem string_flag_fails_at_registration_witness:
  "[''-c|--comment=string'', ''text'']
     \<in> set [[''-k|--kill'', ''kill''], [''-c|--comment=string'', ''text'']] \<and>
   (\<exists>e. add_args [[''-k|--kill'', ''kill''], [''-c|--comment=string'', ''text'']]
          (new_parser ''x'') = Inl e)"
  using string_flag_fails_at_registration
    [of "[[''-k|--kill'', ''kill''], [''-c|--comment=string'', ''text'']]" "new_parser ''x''"]
  by simp

lemma cli_parse_args_empty: "cli_parse_args r [] = Inr []"
proof -
  have pl: "parse_loop sub choices cli [] st = Inr ([], st)" for sub choices st
    by (subst parse_loop.simps) simp
  have cp: "consume_positionals sub choices cli [] st
              = Inr (0, st\<lparr>positionals := positionals st\<rparr>)"
    if "positionals st = [1]" for sub choices st
    using that
    by (simp add: consume_positionals_def match_arguments_partial_def cli_def
        subparsers_action_def nargs_pattern_def)
  have cr: "check_required (zip [0..<length (actions cli)] (actions cli)) [] [] = Inr ([], [])"
    by (simp add: cli_def help_action_def subparsers_action_def upt_rec)
  have ini: "initial_namespace cli = []"
    by (simp add: initial_namespace_def cli_def help_action_def subparsers_action_def)
  have pos: "filter (\<lambda>i. option_strings (actions cli ! i) = []) [0..<length (actions cli)] = [1]"
    by (simp add: cli_def help_action_def subparsers_action_def)
  have "parse_known_args_body sub choices cli [] [] = Inr ([], [])" for sub choices
    by (simp add: parse_known_args_body_def pl pos cp cr)
  then show ?thesis
    by (simp add: cli_parse_args_def parse_args_def parse_known_args_def ini)
qed

text \<open>
  Claim C3. Whatever commands are registered, with no token on the command line
  \<open>parse_args\<close> returns a namespace without the attribute \<open>func\<close>; \<open>main\<close> prints
  the namespace and then raises \<open>AttributeError\<close> at \<open>args.func\<close>, so the help of line 264
  is not printed.
\<close>

theorem no_command_raises_AttributeError:
  "cli_parse_args r [] = Inr [] \<and>
   main r [] =
     \<lparr>raised = Some (AttributeError ''func''), printed = [PrintArgs []], called = []\<rparr>"
  by (simp add: main_def cli_parse_args_empty)

section \<open>The Aliases paragraph\<close>

lemma split_from_nonempty: "split_from sep acc s \<noteq> []"
  by (induction sep acc s rule: split_from.induct) auto

lemma split_from_app:
  "split_from sep (acc0 @ acc) s =
     (acc0 @ hd (split_from sep acc s)) # tl (split_from sep acc s)"
proof (induction s arbitrary: acc)
  case Nil
  then show ?case by simp
next
  case (Cons c cs)
  show ?case
  proof (cases "sep \<noteq> [] \<and> startswith (c # cs) sep")
    case True
    then show ?thesis by simp
  next
    case False
    then show ?thesis using Cons [of "acc @ [c]"] by auto
  qed
qed

lemma split_from_acc:
  "split_from sep acc s = (acc @ hd (split_from sep [] s)) # tl (split_from sep [] s)"
  using split_from_app [of sep acc "[]" s] by simp

text \<open>A separator of one character: characters other than it join the piece being read.\<close>

lemma split_from_single_skip:
  assumes "\<forall>c \<in> set ws. c \<noteq> s"
  shows "split_from [s] acc (ws @ b) = split_from [s] (acc @ ws) b"
  using assms
proof (induction ws arbitrary: acc)
  case Nil
  then show ?case by simp
next
  case (Cons w ws)
  then have "\<not> startswith (w # ws @ b) [s]" by (simp add: startswith_def)
  with Cons show ?case by simp
qed

lemma str_strip_leading:
  assumes "list_all isspace ws"
  shows "str_strip (ws @ x) = str_strip x"
proof -
  have "dropWhile isspace (ws @ x) = dropWhile isspace x"
    using assms by (induction ws) auto
  then show ?thesis by (simp add: str_strip_def)
qed

lemma isspace_not_comma: "isspace c \<Longrightarrow> c \<noteq> CHR '',''"
  by (auto simp: isspace_def)

lemma strip_split_leading:
  assumes "list_all isspace ws"
  shows "map str_strip (str_split (ws @ b) '','') = map str_strip (str_split b '','')"
proof -
  have "\<forall>c \<in> set ws. c \<noteq> CHR '',''"
    using assms isspace_not_comma by (auto simp: list_all_iff)
  then have "split_from '','' [] (ws @ b) = split_from '','' ([] @ ws) b"
    by (rule split_from_single_skip)
  also have "\<dots> = (ws @ hd (split_from '','' [] b)) # tl (split_from '','' [] b)"
    using split_from_acc [of "'',''" ws b] by simp
  finally have "map str_strip (str_split (ws @ b) '','')
      = str_strip (hd (split_from '','' [] b)) # map str_strip (tl (split_from '','' [] b))"
    using assms by (simp add: str_split_def str_strip_leading)
  also have "\<dots> = map str_strip (split_from '','' [] b)"
    using split_from_nonempty [of "'',''" "[]" b]
    by (cases "split_from '','' [] b") simp_all
  finally show ?thesis by (simp add: str_split_def)
qed

lemma drop9_header: "drop 9 (''Aliases:'' @ c # rest) = rest"
  by simp

lemma drop9_header_only: "drop 9 (''Aliases:'' @ rest) = tl rest"
  by (cases rest) simp_all

text \<open>
  Claim C10, amended. The alias list is computed from the text of the first paragraph that
  starts with \<open>Aliases:\<close>, from character offset 9 on: it is split on commas and every
  piece is stripped. So one character after the header of 8 characters is discarded
  whatever it is. The aliases are recovered intact when one character separates the colon
  from the first alias, and also when whitespace follows that character, because the
  pieces are stripped; with nothing between the colon and the first alias, the first
  character of the first alias is lost.
\<close>

theorem alias_list_starts_at_offset_nine:
  assumes "parse_doc docstr = Inr d"
    and "find (\<lambda>x. startswith x ''Aliases:'') (tl (paragraphs_of docstr)) = Some p"
  shows "aliases d = map str_strip (str_split (drop 9 p) '','') \<and>
         (\<forall>c rest. p = ''Aliases:'' @ c # rest \<longrightarrow>
            aliases d = map str_strip (str_split rest '','')) \<and>
         (\<forall>c ws rest. p = ''Aliases:'' @ c # ws @ rest \<and> list_all isspace ws \<longrightarrow>
            aliases d = map str_strip (str_split rest '','')) \<and>
         (\<forall>rest. p = ''Aliases:'' @ rest \<longrightarrow>
            aliases d = map str_strip (str_split (tl rest) '',''))"
proof -
  have a: "aliases d = map str_strip (str_split (drop 9 p) '','')"
    using parse_doc_aliases [OF assms(1)] assms(2) by simp
  have b: "aliases d = map str_strip (str_split rest '','')"
    if "p = ''Aliases:'' @ c # rest" for c rest
    using a that by simp
  have c: "aliases d = map str_strip (str_split rest '','')"
    if "p = ''Aliases:'' @ c # ws @ rest \<and> list_all isspace ws" for c ws rest
    using a that strip_split_leading [of ws rest] by simp
  have e: "aliases d = map str_strip (str_split (tl rest) '','')"
    if "p = ''Aliases:'' @ rest" for rest
    using a that drop9_header_only [of rest] by simp
  from a b c e show ?thesis by blast
qed

theorem alias_list_starts_at_offset_nine_witness:
  "parse_doc (the (doc unspaced)) = Inr (projr (parse_doc (the (doc unspaced)))) \<and>
   find (\<lambda>x. startswith x ''Aliases:'') (tl (paragraphs_of (the (doc unspaced))))
     = Some ''Aliases:a, b'' \<and>
   aliases (projr (parse_doc (the (doc unspaced)))) = ['''', ''b'']"
proof -
  have h1: "parse_doc (the (doc unspaced)) = Inr (projr (parse_doc (the (doc unspaced))))"
    by code_simp
  have h2: "find (\<lambda>x. startswith x ''Aliases:'') (tl (paragraphs_of (the (doc unspaced))))
     = Some ''Aliases:a, b''"
    by code_simp
  have v: "map str_strip (str_split (drop 9 ''Aliases:a, b'') '','') = ['''', ''b'']"
    by code_simp
  from alias_list_starts_at_offset_nine [OF h1 h2] h1 h2 v show ?thesis by simp
qed

text \<open>
  Claim C10 as it was stated fails: the paragraph \<open>Aliases:  a, b\<close> has two characters between the colon and the first
  alias, and its alias list is intact.
\<close>

theorem alias_list_intact_after_two_spaces:
  "parse_doc (the (doc spaced)) =
     Inr \<lparr>name = ''spaced'', shorthelp = ''two spaces after the colon'', args_list = [],
          aliases = [''a'', ''b''], longhelp = []\<rparr>"
  by code_simp

section \<open>The lines of the Args body\<close>

lemma length_split_from_ge1: "1 \<le> length (split_from sep acc s)"
  using split_from_nonempty [of sep acc s] by (cases "split_from sep acc s") simp_all

lemma split_from_no_occurrence:
  assumes "\<nexists>a b. s = a @ sep @ b"
  shows "split_from sep acc s = [acc @ s]"
  using assms
proof (induction s arbitrary: acc)
  case Nil
  then show ?case by simp
next
  case (Cons c cs)
  have ns: "\<not> startswith (c # cs) sep"
  proof
    assume "startswith (c # cs) sep"
    then obtain r where "c # cs = sep @ r" using startswith_append by blast
    then have "c # cs = [] @ sep @ r" by simp
    with Cons.prems show False by blast
  qed
  have "\<nexists>a b. cs = a @ sep @ b"
  proof
    assume "\<exists>a b. cs = a @ sep @ b"
    then obtain a b where "cs = a @ sep @ b" by blast
    then have "c # cs = (c # a) @ sep @ b" by simp
    with Cons.prems show False by blast
  qed
  with Cons.IH [of "acc @ [c]"] ns show ?case by simp
qed

lemma split_from_occurrence:
  assumes "sep \<noteq> []" "s = a @ sep @ b"
  shows "2 \<le> length (split_from sep acc s)"
  using assms
proof (induction a arbitrary: s acc)
  case Nil
  then have "s \<noteq> []" by simp
  then obtain c cs where s: "s = c # cs" by (meson list.exhaust)
  have "startswith s sep" using Nil by simp
  with s Nil(1) have "split_from sep acc s = acc # split_from sep [] (drop (length sep - 1) cs)"
    by simp
  with length_split_from_ge1 [of sep "[]" "drop (length sep - 1) cs"] show ?case by simp
next
  case (Cons x a)
  then have s: "s = x # (a @ sep @ b)" by simp
  show ?case
  proof (cases "startswith s sep")
    case True
    with s Cons.prems(1)
    have "split_from sep acc s = acc # split_from sep [] (drop (length sep - 1) (a @ sep @ b))"
      by simp
    with length_split_from_ge1 [of sep "[]" "drop (length sep - 1) (a @ sep @ b)"]
    show ?thesis by simp
  next
    case False
    with s have "split_from sep acc s = split_from sep (acc @ [x]) (a @ sep @ b)" by simp
    with Cons.IH [OF Cons.prems(1) refl, of "acc @ [x]"] show ?thesis by simp
  qed
qed

lemma drop_sep_keeps_second:
  assumes "sep \<noteq> []"
  shows "\<exists>a'. drop (length sep) (a @ sep @ b @ sep @ c) = a' @ sep @ c"
proof -
  have "length sep \<le> length (a @ sep @ b)" by simp
  then have "drop (length sep) ((a @ sep @ b) @ sep @ c)
               = drop (length sep) (a @ sep @ b) @ sep @ c"
    by (simp del: append_assoc)
  then show ?thesis by auto
qed

lemma split_from_two_occurrences:
  assumes "sep \<noteq> []" "s = a @ sep @ b @ sep @ c"
  shows "3 \<le> length (split_from sep acc s)"
  using assms
proof (induction a arbitrary: s acc)
  case Nil
  then have "s \<noteq> []" by simp
  then obtain y ys where s: "s = y # ys" by (meson list.exhaust)
  have st: "startswith s sep" using Nil by simp
  have "drop (length sep - 1) ys = drop (length sep) s"
    using s Nil(1) by (cases sep) simp_all
  also have "\<dots> = b @ sep @ c" using Nil by simp
  finally have d: "drop (length sep - 1) ys = b @ sep @ c" .
  from s st Nil(1)
  have "split_from sep acc s = acc # split_from sep [] (drop (length sep - 1) ys)" by simp
  with split_from_occurrence [OF Nil(1) d, of "[]"] show ?case by simp
next
  case (Cons x a)
  then have s: "s = x # (a @ sep @ b @ sep @ c)" by simp
  show ?case
  proof (cases "startswith s sep")
    case True
    have "drop (length sep - 1) (a @ sep @ b @ sep @ c) = drop (length sep) s"
      using s Cons.prems(1) by (cases sep) simp_all
    moreover obtain a' where "drop (length sep) ((x # a) @ sep @ b @ sep @ c) = a' @ sep @ c"
      using drop_sep_keeps_second [OF Cons.prems(1), of "x # a" b c] by blast
    ultimately have d: "drop (length sep - 1) (a @ sep @ b @ sep @ c) = a' @ sep @ c"
      using s by simp
    from s True Cons.prems(1)
    have "split_from sep acc s
            = acc # split_from sep [] (drop (length sep - 1) (a @ sep @ b @ sep @ c))" by simp
    with split_from_occurrence [OF Cons.prems(1) d, of "[]"] show ?thesis by simp
  next
    case False
    with s have "split_from sep acc s = split_from sep (acc @ [x]) (a @ sep @ b @ sep @ c)"
      by simp
    with Cons.IH [OF Cons.prems(1) refl, of "acc @ [x]"] show ?thesis by simp
  qed
qed

lemma split_colon_space_once:
  assumes "\<nexists>u v. a = u @ '': '' @ v" "\<nexists>u v. b = u @ '': '' @ v"
  shows "split_from '': '' acc (a @ '': '' @ b) = [acc @ a, b]"
  using assms(1)
proof (induction a arbitrary: acc)
  case Nil
  have "split_from '': '' [] b = [[] @ b]"
    by (rule split_from_no_occurrence [OF assms(2)])
  then show ?case by (simp add: startswith_def)
next
  case (Cons x a)
  have ns: "\<not> startswith (x # a @ '': '' @ b) '': ''"
  proof
    assume st: "startswith (x # a @ '': '' @ b) '': ''"
    show False
    proof (cases a)
      case Nil
      with st show False by (simp add: startswith_def)
    next
      case (Cons y ys)
      with st have "x # a = [] @ '': '' @ ys" by (simp add: startswith_def)
      with Cons.prems show False by blast
    qed
  qed
  have "\<nexists>u v. a = u @ '': '' @ v"
  proof
    assume "\<exists>u v. a = u @ '': '' @ v"
    then obtain u v where "a = u @ '': '' @ v" by blast
    then have "x # a = (x # u) @ '': '' @ v" by simp
    with Cons.prems show False by blast
  qed
  with Cons.IH [of "acc @ [x]"] ns show ?case by simp
qed

lemma add_args_bad_line:
  assumes "ln \<in> set ls" "length ln \<noteq> 2"
  shows "\<exists>e. add_args ls p = Inl e"
proof (cases "add_args ls p")
  case (Inl e)
  then show ?thesis by blast
next
  case (Inr p')
  from add_args_all_two [OF Inr] assms show ?thesis by blast
qed

text \<open>
  Claim C8, amended. Every non-blank line of the Args body is split on every occurrence of
  \<open>": "\<close> and must give exactly two parts, the spec and the help text. When some line
  gives another number of parts, the registration fails. A line without \<open>": "\<close> gives
  one part, a line with two separators gives three parts or more; a line with the
  separator between two texts that do not contain it gives these two texts.
\<close>

theorem arg_line_needs_exactly_one_separator:
  assumes "doc f = Some docstr" and "parse_doc docstr = Inr d" and "args_list d \<noteq> []"
    and "x \<in> set (filter (\<lambda>x. x \<noteq> [])
                  (map str_strip (str_split (re_sub_wrap (hd (args_list d))) ''\<newline>'')))"
    and "length (str_split x '': '') \<noteq> 2"
  shows "(\<exists>e. add_subcommand parent f = Inl e) \<and>
         (\<forall>ln. (\<nexists>a b. ln = a @ '': '' @ b) \<longrightarrow> str_split ln '': '' = [ln]) \<and>
         (\<forall>a b c. 3 \<le> length (str_split (a @ '': '' @ b @ '': '' @ c) '': '')) \<and>
         (\<forall>a b. (\<nexists>u v. a = u @ '': '' @ v) \<and> (\<nexists>u v. b = u @ '': '' @ v) \<longrightarrow>
                str_split (a @ '': '' @ b) '': '' = [a, b])"
proof -
  have mem: "str_split x '': '' \<in> set (arg_lines (hd (args_list d)))"
    using assms(4) by (auto simp: arg_lines_def)
  have "\<exists>e. add_subcommand parent f = Inl e"
  proof (cases "add_parser parent (name d) (shorthelp d) (longhelp d) (aliases d)")
    case (Inl e)
    with assms(1,2) show ?thesis by (simp add: add_subcommand_def)
  next
    case (Inr pr)
    obtain parent' ref where pr: "pr = (parent', ref)" by (cases pr)
    from add_args_bad_line [OF mem assms(5)] obtain e where
      "add_args (arg_lines (hd (args_list d)))
         (set_defaults (parsers parent' ! ref) ''func'' (VFunc (fid f))) = Inl e"
      by blast
    with assms(1,2,3) Inr pr show ?thesis by (simp add: add_subcommand_def Let_def)
  qed
  moreover have "str_split ln '': '' = [ln]" if "\<nexists>a b. ln = a @ '': '' @ b" for ln
    using split_from_no_occurrence [OF that, of "[]"] by (simp add: str_split_def)
  moreover have "3 \<le> length (str_split (a @ '': '' @ b @ '': '' @ c) '': '')" for a b c
    using split_from_two_occurrences [of "'': ''" _ a b c "[]"] by (simp add: str_split_def)
  moreover have "str_split (a @ '': '' @ b) '': '' = [a, b]"
    if "(\<nexists>u v. a = u @ '': '' @ v) \<and> (\<nexists>u v. b = u @ '': '' @ v)" for a b
    using split_colon_space_once [of a b "[]"] that by (simp add: str_split_def)
  ultimately show ?thesis by blast
qed

theorem arg_line_needs_exactly_one_separator_witness:
  "parse_doc (the (doc bare)) = Inr (projr (parse_doc (the (doc bare)))) \<and>
   args_list (projr (parse_doc (the (doc bare)))) \<noteq> [] \<and>
   ''input the file to read'' \<in> set (filter (\<lambda>x. x \<noteq> [])
      (map str_strip (str_split (re_sub_wrap (hd (args_list (projr (parse_doc (the (doc bare)))))))
         ''\<newline>''))) \<and>
   length (str_split ''input the file to read'' '': '') \<noteq> 2 \<and>
   (\<exists>e. add_subcommand registered bare = Inl e)"
proof -
  have h1: "doc bare = Some (the (doc bare))" by code_simp
  have h2: "parse_doc (the (doc bare)) = Inr (projr (parse_doc (the (doc bare))))"
    by code_simp
  have h3: "args_list (projr (parse_doc (the (doc bare)))) \<noteq> []" by code_simp
  have h4: "''input the file to read'' \<in> set (filter (\<lambda>x. x \<noteq> [])
      (map str_strip (str_split (re_sub_wrap (hd (args_list (projr (parse_doc (the (doc bare)))))))
         ''\<newline>'')))"
    by code_simp
  have h5: "length (str_split ''input the file to read'' '': '') \<noteq> 2" by code_simp
  from arg_line_needs_exactly_one_separator [OF h1 h2 h3 h4 h5, of registered] h2 h3 h4 h5
  show ?thesis by blast
qed

text \<open>
  Claim C8 as it was stated fails: a line whose help text contains \<open>": "\<close> is split into three parts, and the
  registration raises \<open>ValueError\<close> when the line is unpacked.
\<close>

theorem help_text_with_separator_is_refused:
  "arg_lines (hd (args_list (projr (parse_doc (the (doc wordy)))))) =
     [[''input'', ''note'', ''the file to read'']] \<and>
   add_subcommand registered wordy = Inl (ValueError ''too many values to unpack'')"
  by code_simp

section \<open>Dispatch\<close>

subsection \<open>An unknown command\<close>

lemma pc_all: "c \<in> set [PD, PA, PO]"
  by (cases c) simp_all

lemma takeWhile_all_pc: "takeWhile (\<lambda>c. c \<in> set [PD, PA, PO]) ps = ps"
  using pc_all by (simp add: takeWhile_eq_all_conv del: set_simps)

lemma rmatch_parser:
  "rmatch [([PD], True), ([PA], False), ([PD, PA, PO], True)] (PA # ps)
     = Some [0, 1, length ps]"
proof -
  have "rmatch [([PD, PA, PO], True)] ps = Some [length ps]"
    by (simp add: takeWhile_all_pc del: set_simps)
  then show ?thesis by simp
qed

lemma get_option_tuples_cli:
  "length (get_option_tuples cli (CHR ''-'' # c # cs)) \<le> 1"
proof (cases "c = CHR ''-''")
  case True
  obtain prefix sep expl where
    pe: "partition_eq (CHR ''-'' # CHR ''-'' # cs) = (prefix, sep, expl)"
    by (cases "partition_eq (CHR ''-'' # CHR ''-'' # cs)")
  then have "\<not> startswith ''-h'' prefix"
    by (auto simp: partition_eq_def startswith_def split: if_splits)
  with True pe show ?thesis
    by (simp add: get_option_tuples_def cli_def)
next
  case False
  then have "\<not> startswith ''--help'' (CHR ''-'' # c # cs)"
    by (auto simp: startswith_def)
  with False show ?thesis
    by (simp add: get_option_tuples_def cli_def)
qed

lemma parse_optional_cli: "\<exists>ot. parse_optional cli s = Inr ot"
proof (cases s)
  case Nil
  then show ?thesis by (simp add: parse_optional_def)
next
  case (Cons a as)
  show ?thesis
  proof (cases "a = CHR ''-'' \<and> as \<noteq> []")
    case False
    with Cons show ?thesis
      by (auto simp: parse_optional_def split: option.splits)
  next
    case True
    then obtain c cs where as: "as = c # cs" by (cases as) auto
    from get_option_tuples_cli [of c cs] Cons True as
    have "\<not> 1 < length (get_option_tuples cli s)" by simp
    then show ?thesis
      by (auto simp: parse_optional_def Let_def split: option.splits prod.splits)
  qed
qed

lemma classify_cli: "\<exists>cs. classify cli ss = Inr cs \<and> length cs = length ss"
proof (induction ss)
  case Nil
  then show ?case by simp
next
  case (Cons s ss)
  from parse_optional_cli obtain ot where "parse_optional cli s = Inr ot" by blast
  with Cons show ?case by auto
qed

lemma parse_optional_positional:
  assumes "s \<noteq> []" "hd s \<noteq> CHR ''-''"
  shows "parse_optional p s = Inr None"
  using assms by (simp add: parse_optional_def)

lemma classify_cli_command:
  assumes "cmd \<noteq> []" "hd cmd \<noteq> CHR ''-''"
  shows "\<exists>cs. classify cli (cmd # rest) = Inr (ClsA # cs) \<and> length cs = length rest"
proof -
  from assms have "cmd \<noteq> ''--''" by auto
  moreover obtain cs where "classify cli rest = Inr cs" "length cs = length rest"
    using classify_cli by blast
  ultimately show ?thesis
    using parse_optional_positional [OF assms] by simp
qed

lemma get_value_list_identity:
  "conv a = None \<Longrightarrow> get_value_list a strs = Inr (map VStr strs)"
  by (induction strs) (simp_all add: get_value_def)

lemma take_action_unknown_command:
  assumes "cmd \<notin> set choices"
  shows "take_action sub choices cli 1 (cmd # strs) st = Inl (ArgumentError (InvalidChoice cmd))"
proof -
  have "conv subparsers_action = None" by (simp add: subparsers_action_def)
  then have "get_value_list subparsers_action (cmd # strs) = Inr (map VStr (cmd # strs))"
    by (rule get_value_list_identity)
  then have "get_values choices subparsers_action (cmd # strs)
               = Inl (ArgumentError (InvalidChoice cmd))"
    using assms
    by (simp add: get_values_def subparsers_action_def del: get_value_list.simps)
  moreover have "actions cli ! 1 = subparsers_action" by (simp add: cli_def)
  ultimately show ?thesis by (simp add: take_action_def Let_def)
qed

lemma match_arguments_partial_cli:
  "match_arguments_partial [subparsers_action] (PA # ps) = [Suc (length ps)]"
  by (simp add: match_arguments_partial_def nargs_pattern_def subparsers_action_def
      rmatch_parser del: rmatch.simps)

lemma consume_positionals_unknown_command:
  assumes "cmd \<notin> set choices" "positionals st = [1]"
  shows "consume_positionals sub choices cli ((cmd, ClsA) # rem) st
           = Inl (ArgumentError (InvalidChoice cmd))"
proof -
  have a: "map (\<lambda>i. actions cli ! i) [1] = [subparsers_action]" by (simp add: cli_def)
  have "match_arguments_partial (map (\<lambda>i. actions cli ! i) (positionals st))
          (map (pc_of \<circ> snd) ((cmd, ClsA) # rem)) = [Suc (length rem)]"
    using assms(2) a match_arguments_partial_cli [of "map (pc_of \<circ> snd) rem"] by simp
  then show ?thesis
    using assms take_action_unknown_command [OF assms(1)]
    by (simp add: consume_positionals_def Let_def)
qed

lemma parse_loop_unknown_command:
  assumes "cmd \<notin> set choices" "positionals st = [1]"
  shows "(\<exists>rem' st'. parse_loop sub choices cli ((cmd, ClsA) # rem) st = Inr (rem', st') \<and>
            rem' = (cmd, ClsA) # rem \<and> st' = st) \<or>
         parse_loop sub choices cli ((cmd, ClsA) # rem) st
           = Inl (ArgumentError (InvalidChoice cmd))"
  using consume_positionals_unknown_command [OF assms, of sub rem]
  by (subst (1 2) parse_loop.simps) (simp add: Let_def)

lemma parse_known_args_body_unknown_command:
  assumes "cmd \<noteq> []" "hd cmd \<noteq> CHR ''-''" "cmd \<notin> set choices"
  shows "parse_known_args_body sub choices cli (cmd # rest) m
           = Inl (ArgumentError (InvalidChoice cmd))"
proof -
  from classify_cli_command [OF assms(1,2)] obtain cs where
    cs: "classify cli (cmd # rest) = Inr (ClsA # cs)" by blast
  define st where "st = \<lparr>ns = m, seen = [], extras = [],
               positionals = filter (\<lambda>i. option_strings (actions cli ! i) = [])
                               [0..<length (actions cli)]\<rparr>"
  define rem where "rem = zip rest cs"
  have p: "positionals st = [1]"
    by (simp add: st_def cli_def help_action_def subparsers_action_def)
  have body: "parse_known_args_body sub choices cli (cmd # rest) m =
     (case parse_loop sub choices cli ((cmd, ClsA) # rem) st of
        Inl e \<Rightarrow> Inl e
      | Inr (rem', st') \<Rightarrow>
          (case consume_positionals sub choices cli rem' st' of
             Inl e \<Rightarrow> Inl e
           | Inr (k, st'') \<Rightarrow>
               (case check_required (zip [0..<length (actions cli)] (actions cli))
                       (seen st'') (ns st'') of
                  Inl e \<Rightarrow> Inl e
                | Inr (m', names) \<Rightarrow>
                    if names \<noteq> [] then Inl (SystemExit 2 (Some (RequiredArguments names)))
                    else Inr (m', extras st'' @ map (VStr \<circ> fst) (drop k rem')))))"
    by (simp add: parse_known_args_body_def cs st_def rem_def del: classify.simps)
  note cp = consume_positionals_unknown_command [OF assms(3) p, of sub rem]
  from parse_loop_unknown_command [OF assms(3) p, of sub rem]
  show ?thesis
  proof
    assume "\<exists>rem' st'. parse_loop sub choices cli ((cmd, ClsA) # rem) st = Inr (rem', st') \<and>
            rem' = (cmd, ClsA) # rem \<and> st' = st"
    then have "parse_loop sub choices cli ((cmd, ClsA) # rem) st = Inr ((cmd, ClsA) # rem, st)"
      by blast
    with body cp show ?thesis by simp
  next
    assume "parse_loop sub choices cli ((cmd, ClsA) # rem) st
              = Inl (ArgumentError (InvalidChoice cmd))"
    with body show ?thesis by simp
  qed
qed

lemma cli_parse_args_unknown_command:
  assumes "cmd \<noteq> []" "hd cmd \<noteq> CHR ''-''" "cmd \<notin> set (map fst (name_parser_map r))"
  shows "cli_parse_args r (cmd # rest) = Inl (SystemExit 2 (Some (InvalidChoice cmd)))"
  using parse_known_args_body_unknown_command [OF assms]
  by (simp add: cli_parse_args_def parse_args_def parse_known_args_def)

text \<open>
  Claim C5. \<open>main\<close> calls a handler only with the namespace that \<open>parse_args\<close>
  returned: whenever \<open>parse_args\<close> ends in an error, \<open>main\<close> ends with that error, has
  printed nothing and has called no handler. A first token that does not start with \<open>-\<close>
  and is no registered name or alias ends in the usage error for an invalid choice, with
  exit status 2, whatever follows it. On the commands of the program an unknown flag and a
  missing positional, and on a command with an integer flag a value that is no integer,
  end in a usage error with exit status 2; a value that converts reaches the handler.
\<close>

theorem failed_dispatch_calls_no_handler:
  "(\<forall>e. cli_parse_args r argv = Inl e \<longrightarrow>
      main r argv = \<lparr>raised = Some e, printed = [], called = []\<rparr>) \<and>
   (cmd \<noteq> [] \<and> hd cmd \<noteq> CHR ''-'' \<and> cmd \<notin> set (map fst (name_parser_map r)) \<longrightarrow>
      main r (cmd # rest) =
        \<lparr>raised = Some (SystemExit 2 (Some (InvalidChoice cmd))), printed = [], called = []\<rparr>) \<and>
   main registered [''testing'', ''b'', ''f'', ''--bogus''] =
     \<lparr>raised = Some (SystemExit 2 (Some (UnrecognizedArguments [''--bogus'']))),
      printed = [], called = []\<rparr> \<and>
   main registered [''testing'', ''b''] =
     \<lparr>raised = Some (SystemExit 2 (Some (RequiredArguments [''files'']))),
      printed = [], called = []\<rparr> \<and>
   main counted [''counting'', ''--num=abc''] =
     \<lparr>raised = Some (SystemExit 2 (Some (InvalidValue ''abc''))),
      printed = [], called = []\<rparr> \<and>
   called (main counted [''counting'', ''--num=12'']) =
     [(6, [(''num'', VInt 12), (''func'', VFunc 6)])]"
proof -
  have a: "main r argv = \<lparr>raised = Some e, printed = [], called = []\<rparr>"
    if "cli_parse_args r argv = Inl e" for e
    using that by (simp add: main_def)
  have b: "main r (cmd # rest) =
        \<lparr>raised = Some (SystemExit 2 (Some (InvalidChoice cmd))), printed = [], called = []\<rparr>"
    if "cmd \<noteq> [] \<and> hd cmd \<noteq> CHR ''-'' \<and> cmd \<notin> set (map fst (name_parser_map r))"
    using cli_parse_args_unknown_command [of cmd r rest] that by (simp add: main_def)
  have c1: "main registered [''testing'', ''b'', ''f'', ''--bogus''] =
     \<lparr>raised = Some (SystemExit 2 (Some (UnrecognizedArguments [''--bogus'']))),
      printed = [], called = []\<rparr>"
    by code_simp
  have c2: "main registered [''testing'', ''b''] =
     \<lparr>raised = Some (SystemExit 2 (Some (RequiredArguments [''files'']))),
      printed = [], called = []\<rparr>"
    by code_simp
  have c3: "main counted [''counting'', ''--num=abc''] =
     \<lparr>raised = Some (SystemExit 2 (Some (InvalidValue ''abc''))),
      printed = [], called = []\<rparr>"
    by code_simp
  have c4: "called (main counted [''counting'', ''--num=12'']) =
     [(6, [(''num'', VInt 12), (''func'', VFunc 6)])]"
    by code_simp
  from a b c1 c2 c3 c4 show ?thesis by blast
qed

theorem failed_dispatch_calls_no_handler_witness:
  "''bogus'' \<noteq> [] \<and> hd ''bogus'' \<noteq> CHR ''-'' \<and>
   ''bogus'' \<notin> set (map fst (name_parser_map registered)) \<and>
   cli_parse_args registered [''bogus'', ''x''] =
     Inl (SystemExit 2 (Some (InvalidChoice ''bogus''))) \<and>
   main registered [''bogus'', ''x''] =
     \<lparr>raised = Some (SystemExit 2 (Some (InvalidChoice ''bogus''))), printed = [], called = []\<rparr>"
proof -
  have h1: "''bogus'' \<noteq> [] \<and> hd ''bogus'' \<noteq> CHR ''-'' \<and>
   ''bogus'' \<notin> set (map fst (name_parser_map registered))"
    by code_simp
  have h2: "cli_parse_args registered [''bogus'', ''x''] =
     Inl (SystemExit 2 (Some (InvalidChoice ''bogus'')))"
    by code_simp
  from failed_dispatch_calls_no_handler [of registered "[''bogus'', ''x'']" "''bogus''" "[''x'']"]
    h1 h2
  show ?thesis by blast
qed

section \<open>The boolean flag\<close>

lemma compile_kill:
  "compile_arg ''-k|--kill'' ''kill'' =
     Inr ([''-k'', ''--kill''], \<lparr>kw_action = KStoreTrue, kw_type = None,
            kw_default_empty = False, kw_nargs_plus = False, kw_help = ''kill''\<rparr>)"
  by code_simp

lemma get_optional_kwargs_kill:
  "get_optional_kwargs [''-k'', ''--kill''] = Inr (''kill'', [''-k'', ''--kill''])"
  by code_simp

lemma add_args_kill_line:
  assumes "add_args [[''-k|--kill'', ''kill'']] q = Inr q'" "map_of (defaults q) ''kill'' = None"
  shows "add_action q kill_rule = Inr q'"
  using assms
  by (simp add: compile_kill add_argument_def get_optional_kwargs_kill make_action_def
      kill_rule_def split: sum.splits)

lemma kill_rule_registered:
  assumes "add_args ls p = Inr p'" "[''-k|--kill'', ''kill''] \<in> set ls"
    and "map_of (defaults p) ''kill'' = None"
  shows "\<exists>i. i < length (actions p') \<and> actions p' ! i = kill_rule \<and>
           map_of (option_string_actions p') ''-k'' = Some i \<and>
           map_of (option_string_actions p') ''--kill'' = Some i"
proof -
  from add_args_mem [OF assms(1,2)] obtain q q' where
    q: "ext p q" "add_args [[''-k|--kill'', ''kill'']] q = Inr q'" "ext q' p'" by blast
  from q(1) assms(3) have "map_of (defaults q) ''kill'' = None" by (simp add: ext_def)
  from add_args_kill_line [OF q(2) this] have aa: "add_action q kill_rule = Inr q'" .
  note r = add_action_Inr [OF aa]
  let ?i = "length (actions q)"
  have o: "map_of (option_string_actions q') ''-k'' = Some ?i"
    "map_of (option_string_actions q') ''--kill'' = Some ?i"
    using r(4) by (simp_all add: kill_rule_def)
  from q(3) obtain xs where xs: "actions p' = actions q' @ xs" by (auto simp: ext_def)
  have "?i < length (actions p')" using xs r(1) by simp
  moreover have "actions p' ! ?i = kill_rule" using xs r(1) by (simp add: nth_append)
  moreover have "map_of (option_string_actions p') ''-k'' = Some ?i"
    "map_of (option_string_actions p') ''--kill'' = Some ?i"
    using q(3) o by (auto simp: ext_def)
  ultimately show ?thesis by blast
qed

lemma parse_optional_exact:
  assumes "map_of (option_string_actions p) tok = Some i" "tok \<noteq> []" "hd tok = CHR ''-''"
  shows "parse_optional p tok = Inr (Some (OptTuple (Some i) tok None None))"
  using assms by (simp add: parse_optional_def)

lemma consume_optional_kill:
  assumes "actions p ! i = kill_rule"
  shows "consume_optional sub choices p ((tok, ClsO (OptTuple (Some i) tok None None)) # rest) st
           = Inr (0, st\<lparr>seen := i # seen st,
                        ns := AList.update ''kill'' (VBool True) (ns st)\<rparr>)"
proof -
  have m: "match_argument kill_rule pat = Inr 0" for pat
    by (simp add: match_argument_def nargs_pattern_def kill_rule_def)
  have ol: "opt_loop p tok (Some i) tok None None [] pat strs = Inr ([(i, [])], [], 0)"
    for pat strs
    by (subst opt_loop.simps) (simp add: assms m)
  have gv: "get_values choices kill_rule [] = Inr (VList [])"
    by (simp add: get_values_def kill_rule_def)
  have ta: "take_action sub choices p i [] st'
              = Inr (st'\<lparr>seen := i # seen st',
                         ns := AList.update ''kill'' (VBool True) (ns st')\<rparr>)" for st'
    using gv by (simp add: take_action_def assms Let_def) (simp add: kill_rule_def dest_name_def)
  show ?thesis
    by (simp add: consume_optional_def ol ta)
qed

lemma ns_step_keeps: "map_of m k = Some v \<Longrightarrow> map_of (ns_step a m) k = Some v"
  by (auto simp: ns_step_def update_conv' split: option.splits)

lemma fold_ns_step_keeps:
  "map_of m k = Some v \<Longrightarrow> map_of (fold ns_step acts m) k = Some v"
  by (induction acts arbitrary: m) (simp_all add: ns_step_keeps)

lemma fold_ns_step_other:
  assumes "map_of m k = None" "\<forall>a \<in> set acts. dest a \<noteq> Some k"
  shows "map_of (fold ns_step acts m) k = None"
  using assms
proof (induction acts arbitrary: m)
  case Nil
  then show ?case by simp
next
  case (Cons a acts)
  then have "map_of (ns_step a m) k = None"
    by (auto simp: ns_step_def update_conv' split: option.splits)
  with Cons show ?case by simp
qed

lemma fold_defaults_keeps:
  "map_of m k = Some v \<Longrightarrow>
   map_of (fold (\<lambda>(k, v) m. if map_of m k = None then AList.update k v m else m) ds m) k
     = Some v"
proof (induction ds arbitrary: m)
  case Nil
  then show ?case by simp
next
  case (Cons d ds)
  obtain a b where d: "d = (a, b)" by (cases d)
  have "map_of (if map_of m a = None then AList.update a b m else m) k = Some v"
    using Cons.prems by (auto simp: update_conv')
  from Cons.IH [OF this] d show ?case by simp
qed

lemma initial_namespace_first:
  assumes "i < length (actions p)" "dest (actions p ! i) = Some k" "dflt (actions p ! i) = Some v"
    and "\<forall>j<i. dest (actions p ! j) \<noteq> Some k"
  shows "map_of (initial_namespace p) k = Some v"
proof -
  have e: "actions p = take i (actions p) @ actions p ! i # drop (Suc i) (actions p)"
    using assms(1) by (simp add: id_take_nth_drop)
  have "\<forall>a \<in> set (take i (actions p)). dest a \<noteq> Some k"
    using assms(1,4) by (auto simp: in_set_conv_nth)
  then have "map_of (fold ns_step (take i (actions p)) []) k = None"
    using fold_ns_step_other [of "[]" k "take i (actions p)"] by simp
  then have "map_of (ns_step (actions p ! i) (fold ns_step (take i (actions p)) [])) k = Some v"
    using assms(2,3) by (simp add: ns_step_def update_conv')
  then have "map_of (fold ns_step (drop (Suc i) (actions p))
               (ns_step (actions p ! i) (fold ns_step (take i (actions p)) []))) k = Some v"
    by (rule fold_ns_step_keeps)
  then have "map_of (fold ns_step (take i (actions p) @ actions p ! i # drop (Suc i) (actions p)) [])
               k = Some v"
    by simp
  with e have "map_of (fold ns_step (actions p) []) k = Some v" by simp
  moreover have "initial_namespace p =
      fold (\<lambda>(k, v) m. if map_of m k = None then AList.update k v m else m) (defaults p)
        (fold ns_step (actions p) [])"
    by (simp add: initial_namespace_def ns_step_def [abs_def])
  ultimately show ?thesis by (simp add: fold_defaults_keeps)
qed

lemma split_kill_line: "str_split ''-k|--kill: kill'' '': '' = [''-k|--kill'', ''kill'']"
  by code_simp

text \<open>
  Claim C7. When the Args body of a command has the line \<open>-k|--kill: kill\<close> and the
  registration succeeds, the parser of the command has the rule \<open>kill_rule\<close>: a
  \<open>store_true\<close> action with the option strings \<open>-k\<close> and \<open>--kill\<close>, the destination
  \<open>kill\<close>, the default \<open>False\<close> and no argument. Both option strings are bound to this
  rule and are recognised as such on the command line; consuming either of them sets
  \<open>kill\<close> to \<open>True\<close> and takes none of the strings after it. The namespace starts with
  \<open>kill = False\<close> when no earlier rule of the command has the same destination. The
  command \<open>testing\<close> of the program shows all of it.
\<close>

theorem kill_flag_is_a_boolean_toggle:
  assumes "doc f = Some docstr" and "parse_doc docstr = Inr d" and "args_list d \<noteq> []"
    and "''-k|--kill: kill'' \<in> set (filter (\<lambda>x. x \<noteq> [])
           (map str_strip (str_split (re_sub_wrap (hd (args_list d))) ''\<newline>'')))"
    and "add_subcommand parent f = Inr r"
  shows "(\<exists>p i. p = parsers r ! length (parsers parent) \<and>
            i < length (actions p) \<and> actions p ! i = kill_rule \<and>
            (\<forall>tok \<in> set [''-k'', ''--kill''].
               map_of (option_string_actions p) tok = Some i \<and>
               parse_optional p tok = Inr (Some (OptTuple (Some i) tok None None)) \<and>
               (\<forall>sub choices rest st.
                  consume_optional sub choices p
                    ((tok, ClsO (OptTuple (Some i) tok None None)) # rest) st
                  = Inr (0, st\<lparr>seen := i # seen st,
                               ns := AList.update ''kill'' (VBool True) (ns st)\<rparr>))) \<and>
            ((\<forall>j<i. dest (actions p ! j) \<noteq> Some ''kill'') \<longrightarrow>
               map_of (initial_namespace p) ''kill'' = Some (VBool False))) \<and>
         called (main registered [''testing'', ''b'', ''f'']) =
           [(1, [(''branch'', VStr ''b''), (''files'', VList [VList [VStr ''f'']]),
                 (''kill'', VBool False), (''func'', VFunc 1)])] \<and>
         called (main registered [''testing'', ''b'', ''f'', ''-k'']) =
           [(1, [(''branch'', VStr ''b''), (''files'', VList [VList [VStr ''f'']]),
                 (''kill'', VBool True), (''func'', VFunc 1)])] \<and>
         called (main registered [''testing'', ''b'', ''f'', ''--kill'']) =
           [(1, [(''branch'', VStr ''b''), (''files'', VList [VList [VStr ''f'']]),
                 (''kill'', VBool True), (''func'', VFunc 1)])] \<and>
         called (main registered [''testing'', ''-k'', ''b'', ''f'']) =
           [(1, [(''branch'', VStr ''b''), (''files'', VList [VList [VStr ''f'']]),
                 (''kill'', VBool True), (''func'', VFunc 1)])]"
proof -
  from add_subcommand_Inr [OF assms(5)] assms(1,2,3) obtain r' p' where
    ap: "add_parser parent (name d) (shorthelp d) (longhelp d) (aliases d)
           = Inr (r', length (parsers parent))"
    and r: "r = r'\<lparr>parsers := (parsers r')[length (parsers parent) := p']\<rparr>"
    and aa: "add_args (arg_lines (hd (args_list d))) (fresh_parser f d) = Inr p'"
    by auto
  have pr: "parsers r ! length (parsers parent) = p'"
    using r add_parser_Inr(2) [OF ap] by simp
  have mem: "[''-k|--kill'', ''kill''] \<in> set (arg_lines (hd (args_list d)))"
  proof -
    have "[''-k|--kill'', ''kill''] = str_split ''-k|--kill: kill'' '': ''"
      by (simp add: split_kill_line)
    then show ?thesis
      unfolding arg_lines_def set_map using assms(4) by blast
  qed
  have nd: "map_of (defaults (fresh_parser f d)) ''kill'' = None"
    by (simp add: fresh_parser_simps)
  from kill_rule_registered [OF aa mem nd] obtain i where
    i: "i < length (actions p')" "actions p' ! i = kill_rule"
       "map_of (option_string_actions p') ''-k'' = Some i"
       "map_of (option_string_actions p') ''--kill'' = Some i"
    by blast
  have tok: "map_of (option_string_actions p') tok = Some i \<and>
             parse_optional p' tok = Inr (Some (OptTuple (Some i) tok None None)) \<and>
             (\<forall>sub choices rest st.
                consume_optional sub choices p'
                  ((tok, ClsO (OptTuple (Some i) tok None None)) # rest) st
                = Inr (0, st\<lparr>seen := i # seen st,
                             ns := AList.update ''kill'' (VBool True) (ns st)\<rparr>))"
    if "tok \<in> set [''-k'', ''--kill'']" for tok
  proof -
    from that i(3,4) have m: "map_of (option_string_actions p') tok = Some i" by auto
    from that have "tok \<noteq> []" "hd tok = CHR ''-''" by auto
    from parse_optional_exact [OF m this] m consume_optional_kill [OF i(2)]
    show ?thesis by blast
  qed
  have dn: "map_of (initial_namespace p') ''kill'' = Some (VBool False)"
    if "\<forall>j<i. dest (actions p' ! j) \<noteq> Some ''kill''"
    using initial_namespace_first [OF i(1) _ _ that, of "VBool False"] i(2)
    by (simp add: kill_rule_def)
  have c1: "called (main registered [''testing'', ''b'', ''f'']) =
           [(1, [(''branch'', VStr ''b''), (''files'', VList [VList [VStr ''f'']]),
                 (''kill'', VBool False), (''func'', VFunc 1)])]"
    by code_simp
  have c2: "called (main registered [''testing'', ''b'', ''f'', ''-k'']) =
           [(1, [(''branch'', VStr ''b''), (''files'', VList [VList [VStr ''f'']]),
                 (''kill'', VBool True), (''func'', VFunc 1)])]"
    by code_simp
  have c3: "called (main registered [''testing'', ''b'', ''f'', ''--kill'']) =
           [(1, [(''branch'', VStr ''b''), (''files'', VList [VList [VStr ''f'']]),
                 (''kill'', VBool True), (''func'', VFunc 1)])]"
    by code_simp
  have c4: "called (main registered [''testing'', ''-k'', ''b'', ''f'']) =
           [(1, [(''branch'', VStr ''b''), (''files'', VList [VList [VStr ''f'']]),
                 (''kill'', VBool True), (''func'', VFunc 1)])]"
    by code_simp
  from pr i(1,2) tok dn c1 c2 c3 c4 show ?thesis by blast
qed

theorem kill_flag_is_a_boolean_toggle_witness:
  "parse_doc (the (doc testing)) = Inr (projr (parse_doc (the (doc testing)))) \<and>
   args_list (projr (parse_doc (the (doc testing)))) \<noteq> [] \<and>
   ''-k|--kill: kill'' \<in> set (filter (\<lambda>x. x \<noteq> [])
      (map str_strip (str_split
         (re_sub_wrap (hd (args_list (projr (parse_doc (the (doc testing))))))) ''\<newline>''))) \<and>
   add_subcommand empty_registry testing = Inr (projr (add_subcommand empty_registry testing)) \<and>
   actions (parsers (projr (add_subcommand empty_registry testing)) ! 0) ! 3 = kill_rule \<and>
   (\<exists>i. map_of (option_string_actions
                  (parsers (projr (add_subcommand empty_registry testing)) ! 0)) ''-k'' = Some i \<and>
        map_of (option_string_actions
                  (parsers (projr (add_subcommand empty_registry testing)) ! 0)) ''--kill''
          = Some i)"
proof -
  have h1: "doc testing = Some (the (doc testing))" by code_simp
  have h2: "parse_doc (the (doc testing)) = Inr (projr (parse_doc (the (doc testing))))"
    by code_simp
  have h3: "args_list (projr (parse_doc (the (doc testing)))) \<noteq> []" by code_simp
  have h4: "''-k|--kill: kill'' \<in> set (filter (\<lambda>x. x \<noteq> [])
      (map str_strip (str_split
         (re_sub_wrap (hd (args_list (projr (parse_doc (the (doc testing))))))) ''\<newline>'')))"
    by code_simp
  have h5: "add_subcommand empty_registry testing
              = Inr (projr (add_subcommand empty_registry testing))"
    by code_simp
  have z: "length (parsers empty_registry) = 0" by code_simp
  have k: "actions (parsers (projr (add_subcommand empty_registry testing)) ! 0) ! 3 = kill_rule"
    by code_simp
  from kill_flag_is_a_boolean_toggle [OF h1 h2 h3 h4 h5] z
  have "\<exists>i. map_of (option_string_actions
                  (parsers (projr (add_subcommand empty_registry testing)) ! 0)) ''-k'' = Some i \<and>
        map_of (option_string_actions
                  (parsers (projr (add_subcommand empty_registry testing)) ! 0)) ''--kill''
          = Some i"
    by auto
  with h2 h3 h4 h5 k show ?thesis by blast
qed

end
